theory Spec2Isabelle
  imports Complex_Main "HOL-Library.AList" "HOL-Library.Char_ord" "HOL-Library.List_Lexorder"
begin

section \<open>The chart wheel layout of ChartWheel.tsx\<close>

text \<open>
  The component \<open>ChartWheel\<close> turns the chart JSON of the backend into the
  geometry of a natal chart wheel. This theory embeds its computations as HOL functions,
  one per source function or \<open>const\<close>, with the source's names.

  Numbers. A JavaScript number is an IEEE double. The model takes a finite double to be
  the real it denotes. Where the source adds, subtracts or multiplies angles (the sum in
  \<open>wrap360\<close>, the difference in \<open>rot\<close>, the difference and the product in
  \<open>degToDegMin\<close>) the result is rounded to the nearest double by \<open>fl\<close>; the
  remainder \<open>%\<close> of two doubles is a double and is not rounded. The screen geometry
  is computed in the reals: \<open>polar\<close>, whose sine and cosine JavaScript leaves to the
  implementation, and the sums such as \<open>lon + rot\<close> whose wrap is the angle of a
  screen point. A real of magnitude \<open>2 ^ 1024\<close> or more stands for the infinity
  of its sign, which is what \<open>JSON.parse\<close> makes of a literal such as \<open>1e309\<close>;
  \<open>Number.isFinite\<close> tells it from a finite number. \<open>NaN\<close> is not a number of
  the model: a conversion that gives it is \<open>None\<close>, and the arithmetic of the program
  on an infinity, which gives it, is not modelled.

  Strings. A string is a \<open>char list\<close> of code units that fit a byte; the glyphs,
  which do not, are lists of code units.

  Built-in conversions. The parse of a string as a number is a parameter \<open>sn\<close> of the
  functions that need it; a conversion that throws is a \<open>TypeError\<close> result.
\<close>

subsection \<open>JSON values\<close>

text \<open>
  The prop \<open>chart\<close> is typed \<open>any\<close>; it is the \<open>chart\<close> field of the backend's
  JSON answer. An object is the list of its own properties, read with \<open>map_of\<close>.
\<close>

datatype jsval =
    JUndefined
  | JNull
  | JBool bool
  | JNum real
  | JStr string
  | JArr "jsval list"
  | JObj "(string \<times> jsval) list"

text \<open>\<open>v == null\<close>: what \<open>?.\<close> and \<open>??\<close> test.\<close>

fun nullish :: "jsval \<Rightarrow> bool" where
  "nullish JUndefined = True"
| "nullish JNull = True"
| "nullish _ = False"

text \<open>The decimal text of an array index.\<close>

function showNat :: "nat \<Rightarrow> string" where
  "showNat n =
     (if n < 10 then [char_of (48 + n)]
      else showNat (n div 10) @ [char_of (48 + n mod 10)])"
  by pat_completeness auto
termination
  by (relation "measure id") auto

declare showNat.simps [simp del]

definition indexed :: "jsval list \<Rightarrow> (string \<times> jsval) list" where
  "indexed xs = zip (map showNat [0..<length xs]) xs"

text \<open>
  The own enumerable properties of a value, as \<open>{...v}\<close> and \<open>Object.keys(v)\<close> see
  them: those of an object, the indices of an array or of a string, none of another
  primitive.
\<close>

fun ownProps :: "jsval \<Rightarrow> (string \<times> jsval) list" where
  "ownProps (JObj kvs) = kvs"
| "ownProps (JArr xs) = indexed xs"
| "ownProps (JStr s) = indexed (map (\<lambda>c. JStr [c]) s)"
| "ownProps _ = []"

text \<open>
  \<open>v?.k\<close> and \<open>v[k]\<close>. The source reads fixed property names and the keys that
  \<open>Object.keys\<close> returned, never \<open>length\<close> or an inherited name, so the own
  enumerable properties answer; reading a primitive gives \<open>undefined\<close>.
\<close>

definition optGet :: "jsval \<Rightarrow> string \<Rightarrow> jsval" where
  "optGet v k = (case map_of (ownProps v) k of Some x \<Rightarrow> x | None \<Rightarrow> JUndefined)"

text \<open>\<open>a ?? b\<close>\<close>

definition coalesce :: "jsval \<Rightarrow> jsval \<Rightarrow> jsval" where
  "coalesce a b = (if nullish a then b else a)"

text \<open>Truthiness, as \<open>!v\<close>, \<open>v || w\<close> and \<open>v ? a : b\<close> read it.\<close>

fun truthy :: "jsval \<Rightarrow> bool" where
  "truthy JUndefined = False"
| "truthy JNull = False"
| "truthy (JBool b) = b"
| "truthy (JNum r) = (r \<noteq> 0)"
| "truthy (JStr s) = (s \<noteq> [])"
| "truthy (JArr _) = True"
| "truthy (JObj _) = True"

text \<open>
  \<open>Number(v)\<close>: \<open>None\<close> is the result \<open>NaN\<close>. The built-in parse of a string
  (StringToNumber) is the parameter \<open>sn\<close>. An array converts through the text of its
  elements joined by commas: the
  empty text for no element or a single \<open>null\<close>, the element's own text for a single
  element (the text of a number parses back to that number), a text with a comma (not a
  number) for more. A plain object converts through the text \<open>[object Object]\<close>, not
  a number.
\<close>

fun toNumber :: "(string \<Rightarrow> real option) \<Rightarrow> jsval \<Rightarrow> real option" where
  "toNumber sn JUndefined = None"
| "toNumber sn JNull = Some 0"
| "toNumber sn (JBool b) = Some (if b then 1 else 0)"
| "toNumber sn (JNum r) = Some r"
| "toNumber sn (JStr s) = sn s"
| "toNumber sn (JObj kvs) = None"
| "toNumber sn (JArr []) = sn []"
| "toNumber sn (JArr [JUndefined]) = sn []"
| "toNumber sn (JArr [JNull]) = sn []"
| "toNumber sn (JArr [JBool b]) = None"
| "toNumber sn (JArr [JNum r]) = Some r"
| "toNumber sn (JArr [JStr s]) = sn s"
| "toNumber sn (JArr [JObj kvs]) = None"
| "toNumber sn (JArr [JArr ys]) = toNumber sn (JArr ys)"
| "toNumber sn (JArr (x # y # zs)) = None"

text \<open>
  \<open>Number.isFinite(n)\<close> on a number that is not \<open>NaN\<close>: false for the two
  infinities.
\<close>

definition isFinite :: "real \<Rightarrow> bool" where
  "isFinite n \<longleftrightarrow> \<bar>n\<bar> < 2 ^ 1024"

text \<open>
  The conversion of an object to a primitive calls its \<open>toString\<close>. A JSON object
  with an own property of that name hides the inherited method behind a value that
  cannot be called, and the conversion throws a TypeError; so does the conversion of an
  array that holds such an object.
\<close>

fun throwsToPrimitive :: "jsval \<Rightarrow> bool" where
  "throwsToPrimitive (JObj kvs) = (map_of kvs ''toString'' \<noteq> None)"
| "throwsToPrimitive (JArr xs) = list_ex throwsToPrimitive xs"
| "throwsToPrimitive _ = False"

datatype failure =
    TypeError
  | OutsideDeclaredType

subsection \<open>Rounding\<close>

text \<open>
  The finite doubles are the numbers \<open>m * 2 ^ k\<close> with \<open>\<bar>m\<bar> < 2 ^ 53\<close> and
  \<open>- 1074 \<le> k\<close>. For \<open>2 ^ e \<le> \<bar>x\<bar> < 2 ^ (e + 1)\<close> the doubles around \<open>x\<close> are
  \<open>ulp x = 2 ^ (e - 52)\<close> apart (\<open>e\<close> is \<open>binade x\<close>), and \<open>2 ^ (- 1074)\<close>
  apart below \<open>2 ^ (- 1022)\<close>. An arithmetic operation returns \<open>fl\<close> of the exact
  result: the nearest double, and of two equally near ones the one with the even significand. The
  results that this theory rounds are sums, differences and products of angles, far
  from the largest double, so that \<open>fl\<close> has no case for an overflow.
\<close>

definition binade :: "real \<Rightarrow> int" where
  "binade x = \<lfloor>log 2 \<bar>x\<bar>\<rfloor>"

definition roundEven :: "real \<Rightarrow> int" where
  "roundEven t =
     (let n = \<lfloor>t\<rfloor>; f = t - of_int n
      in if f < 1 / 2 then n else if 1 / 2 < f then n + 1 else if even n then n else n + 1)"

definition ulp :: "real \<Rightarrow> real" where
  "ulp x = 2 powr of_int (max (binade x) (- 1022) - 52)"

definition fl :: "real \<Rightarrow> real" where
  "fl x = (if x = 0 then 0 else ulp x * of_int (roundEven (x / ulp x)))"

subsection \<open>Angles\<close>

text \<open>
  \<open>n % d\<close> on numbers: the remainder has the sign of the dividend, the quotient is
  truncated towards zero. The source's only divisor is 360.
\<close>

definition trunc :: "real \<Rightarrow> int" where
  "trunc q = (if q < 0 then \<lceil>q\<rceil> else \<lfloor>q\<rfloor>)"

definition js_rem :: "real \<Rightarrow> real \<Rightarrow> real" where
  "js_rem n d = n - d * of_int (trunc (n / d))"

definition wrap360 :: "real \<Rightarrow> real" where
  "wrap360 d = (let x = js_rem d 360 in if x < 0 then fl (x + 360) else x)"

definition astroDegToSvgRad :: "real \<Rightarrow> real" where
  "astroDegToSvgRad astroDeg = (astroDeg - 90) * (pi / 180)"

record xy =
  xy_x :: real
  xy_y :: real

definition polar :: "real \<Rightarrow> real \<Rightarrow> real \<Rightarrow> real \<Rightarrow> xy" where
  "polar cx cy r astroDeg =
     (let a = astroDegToSvgRad astroDeg
      in \<lparr>xy_x = cx + r * cos a, xy_y = cy + r * sin a\<rparr>)"

text \<open>
  \<open>degToDegMin\<close> fills the template \<open>dd, degree sign, mm padded to two digits,
  prime\<close>; the model returns the two integers \<open>(dd, mm)\<close> that the template prints.
  \<open>Math.round\<close> rounds a half upwards.
\<close>

definition degToDegMin :: "real \<Rightarrow> int \<times> int" where
  "degToDegMin deg =
     (let d = \<lfloor>deg\<rfloor>;
          m = \<lfloor>fl (fl (deg - of_int d) * 60) + 1 / 2\<rfloor>;
          mm = (if m = 60 then 0 else m);
          dd = (if m = 60 then d + 1 else d)
      in (dd, mm))"

definition SIGNS :: "string list" where
  "SIGNS = [''Aries'', ''Taurus'', ''Gemini'', ''Cancer'', ''Leo'', ''Virgo'',
            ''Libra'', ''Scorpio'', ''Sagittarius'', ''Capricorn'', ''Aquarius'', ''Pisces'']"

text \<open>A glyph is a text outside ASCII: the list of its code units.\<close>

type_synonym glyph = "nat list"

definition SIGN_GLYPHS :: "(string \<times> glyph) list" where
  "SIGN_GLYPHS =
     [(''Aries'', [0x2648]), (''Taurus'', [0x2649]), (''Gemini'', [0x264A]),
      (''Cancer'', [0x264B]), (''Leo'', [0x264C]), (''Virgo'', [0x264D]),
      (''Libra'', [0x264E]), (''Scorpio'', [0x264F]), (''Sagittarius'', [0x2650]),
      (''Capricorn'', [0x2651]), (''Aquarius'', [0x2652]), (''Pisces'', [0x2653])]"

definition BODY_ORDER :: "string list" where
  "BODY_ORDER =
     [''Sun'', ''Moon'', ''Mercury'', ''Venus'', ''Mars'', ''Jupiter'', ''Saturn'',
      ''Uranus'', ''Neptune'', ''Pluto'',
      ''TrueNode'', ''Lilith'', ''Chiron'', ''Vertex'', ''Fortune'',
      ''Asc'', ''MC'', ''DSC'', ''IC'']"

definition BODY_GLYPHS :: "(string \<times> glyph) list" where
  "BODY_GLYPHS =
     [(''Sun'', [0x2609]), (''Moon'', [0x263D]), (''Mercury'', [0x263F]),
      (''Venus'', [0x2640]), (''Mars'', [0x2642]), (''Jupiter'', [0x2643]),
      (''Saturn'', [0x2644]), (''Uranus'', [0x2645]), (''Neptune'', [0x2646]),
      (''Pluto'', [0x2647]),
      (''TrueNode'', [0x260A]),
      (''Lilith'', [0x26B8]),
      (''Chiron'', [0x26B7]),
      (''Vertex'', [86, 120]),
      (''Fortune'', [0x2297]),
      (''Asc'', [65, 83, 67]),
      (''MC'', [77, 67]),
      (''DSC'', [68, 83, 67]),
      (''IC'', [73, 67])]"

record signDeg =
  sd_sign :: string
  sd_degInSign :: real

definition lonToSignDeg :: "real \<Rightarrow> signDeg" where
  "lonToSignDeg lon =
     (let L = wrap360 lon;
          signIndex = \<lfloor>L / 30\<rfloor>;
          degInSign = L - of_int signIndex * 30
      in \<lparr>sd_sign = SIGNS ! nat signIndex, sd_degInSign = degInSign\<rparr>)"

subsection \<open>Aspect rows and their style\<close>

text \<open>
  \<open>type AspectRow = { p1: string; p2: string; aspect: string; orb: number }\<close>. The
  loop over the rows guards against a missing field and against an orb that is not a
  number, so a field of the record may be absent.
\<close>

record AspectRow =
  ar_p1 :: "string option"
  ar_p2 :: "string option"
  ar_aspect :: "string option"
  ar_orb :: "real option"

text \<open>
  \<open>toLowerCase\<close> on code units below 256: the ASCII capitals and the Latin-1 capitals
  (all of \<open>0xC0\<close> to \<open>0xDE\<close> but the multiplication sign \<open>0xD7\<close>) move up by 32.
\<close>

definition lowerChar :: "char \<Rightarrow> char" where
  "lowerChar c =
     (let n = (of_char c :: nat)
      in if (65 \<le> n \<and> n \<le> 90) \<or> (192 \<le> n \<and> n \<le> 222 \<and> n \<noteq> 215)
         then char_of (n + 32) else c)"

definition toLowerCase :: "string \<Rightarrow> string" where
  "toLowerCase s = map lowerChar s"

record style =
  st_stroke :: string
  st_width :: real
  st_opacity :: real

definition aspectStyle :: "string \<Rightarrow> style" where
  "aspectStyle aspect =
     (let a = toLowerCase aspect;
          harmonious = (a = ''trine'' \<or> a = ''sextile'');
          challenging = (a = ''square'' \<or> a = ''opposition'')
      in if harmonious then \<lparr>st_stroke = ''#ff86b8'', st_width = 2.8, st_opacity = 0.87\<rparr>
         else if challenging then \<lparr>st_stroke = ''#9f7cff'', st_width = 2.8, st_opacity = 0.87\<rparr>
         else \<lparr>st_stroke = ''#d8c8ff'', st_width = 2.4, st_opacity = 0.55\<rparr>)"

subsection \<open>The normalizer: the first \<open>useMemo\<close> of ChartWheel\<close>

text \<open>
  \<open>asc = chart?.houses?.ascendant ?? chart?.points?.Asc?.lon ?? chart?.points?.ASC?.lon
  ?? null\<close>
\<close>

definition ascOf :: "jsval \<Rightarrow> jsval" where
  "ascOf chart =
     coalesce
       (coalesce
          (coalesce (optGet (optGet chart ''houses'') ''ascendant'')
                    (optGet (optGet (optGet chart ''points'') ''Asc'') ''lon''))
          (optGet (optGet (optGet chart ''points'') ''ASC'') ''lon''))
       JNull"

text \<open>\<open>ascDeg: typeof asc === "number" ? wrap360(asc) : null\<close>\<close>

fun ascDegOf :: "jsval \<Rightarrow> real option" where
  "ascDegOf (JNum a) = Some (wrap360 a)"
| "ascDegOf _ = None"

text \<open>
  \<open>cuspsArr = chart?.houses?.cusps ?? chart?.houses?.house_cusps ?? []\<close>, then
  \<open>cusps = Array.isArray(cuspsArr) ? cuspsArr.map(Number).filter(Number.isFinite) : []\<close>.
  The conversion of an entry may throw.
\<close>

definition cuspsArrOf :: "jsval \<Rightarrow> jsval" where
  "cuspsArrOf chart =
     coalesce
       (coalesce (optGet (optGet chart ''houses'') ''cusps'')
                 (optGet (optGet chart ''houses'') ''house_cusps''))
       (JArr [])"

definition cuspsOf :: "(string \<Rightarrow> real option) \<Rightarrow> jsval \<Rightarrow> failure + real list" where
  "cuspsOf sn chart =
     (case cuspsArrOf chart of
        JArr vs \<Rightarrow>
          if list_ex throwsToPrimitive vs then Inl TypeError
          else Inr (filter isFinite (List.map_filter (toNumber sn) vs))
      | _ \<Rightarrow> Inr [])"

text \<open>
  \<open>merged = { ...planetsObj }\<close>, then for each key \<open>k\<close> of \<open>pointsObj || {}\<close>:
  \<open>merged[k] = { ...pointsObj[k], available: true }\<close>. An assignment to a key of an
  object replaces the value in place or appends the key. The one key that is not stored
  is \<open>__proto__\<close>: unless \<open>merged\<close> has it as an own property (copied from
  \<open>planetsObj\<close>), the assignment makes the value the prototype of \<open>merged\<close>, whose
  properties then answer after the own ones. The body loop only looks names up, so the
  model appends them.
\<close>

definition assignKey :: "string \<Rightarrow> jsval \<Rightarrow> (string \<times> jsval) list \<Rightarrow> (string \<times> jsval) list" where
  "assignKey k v merged =
     (if k = ''__proto__'' \<and> map_of merged k = None then merged @ ownProps v
      else AList.update k v merged)"

definition bodiesOf :: "jsval \<Rightarrow> jsval" where
  "bodiesOf chart =
     (let planetsObj = coalesce (optGet chart ''planets'') (JObj []);
          pointsObj = coalesce (optGet chart ''points'') (JObj []);
          keys = map fst (ownProps (if truthy pointsObj then pointsObj else JObj []))
      in JObj (foldl
           (\<lambda>merged k.
              assignKey k
                (JObj (AList.update ''available'' (JBool True) (ownProps (optGet pointsObj k))))
                merged)
           (ownProps planetsObj) keys))"

text \<open>
  \<open>aspects?.planet_aspects\<close> and \<open>aspects?.other_aspects\<close>, each taken when it is an
  array and read at the declared type of its rows. A field of a row that holds a string
  is that string; one that holds a falsy value fails the guard \<open>!a?.p1\<close> as a missing
  one does. A row with another value in \<open>p1\<close>, \<open>p2\<close> or \<open>aspect\<close> is outside the
  declared type, and the model does not follow the coercions JavaScript would apply to
  it: it answers \<open>OutsideDeclaredType\<close>.
\<close>

fun strField :: "jsval \<Rightarrow> string option option" where
  "strField (JStr s) = Some (Some s)"
| "strField v = (if truthy v then None else Some None)"

fun numField :: "jsval \<Rightarrow> real option" where
  "numField (JNum r) = Some r"
| "numField _ = None"

definition rowOf :: "jsval \<Rightarrow> AspectRow option" where
  "rowOf a =
     (case (strField (optGet a ''p1''), strField (optGet a ''p2''),
            strField (optGet a ''aspect'')) of
        (Some f1, Some f2, Some f3) \<Rightarrow>
          Some \<lparr>ar_p1 = f1, ar_p2 = f2, ar_aspect = f3, ar_orb = numField (optGet a ''orb'')\<rparr>
      | _ \<Rightarrow> None)"

fun arrayOr :: "jsval \<Rightarrow> jsval list" where
  "arrayOr (JArr xs) = xs"
| "arrayOr _ = []"

text \<open>\<open>aspectsObj = chart?.aspects ?? {}\<close>\<close>

definition aspectsOf :: "jsval \<Rightarrow> jsval" where
  "aspectsOf chart = coalesce (optGet chart ''aspects'') (JObj [])"

text \<open>\<open>merged = [...planetAs, ...otherAs]\<close>\<close>

definition mergedOf :: "jsval \<Rightarrow> jsval list" where
  "mergedOf aspects =
     (let planetAs = arrayOr (optGet aspects ''planet_aspects'');
          otherAs = arrayOr (optGet aspects ''other_aspects'')
      in planetAs @ otherAs)"

definition rowsOf :: "jsval \<Rightarrow> failure + AspectRow list" where
  "rowsOf aspects =
     (let merged = map rowOf (mergedOf aspects)
      in if list_all (\<lambda>row. row \<noteq> None) merged then Inr (List.map_filter id merged)
         else Inl OutsideDeclaredType)"

text \<open>
  \<open>titleName: chart?.name ? String(chart.name) : ""\<close>. The caption is a text; the
  model keeps the value that \<open>String\<close> converts (the empty string for a falsy name).
  The conversion of an object may throw.
\<close>

definition titleOf :: "jsval \<Rightarrow> failure + jsval" where
  "titleOf chart =
     (let name = optGet chart ''name''
      in if truthy name then (if throwsToPrimitive name then Inl TypeError else Inr name)
         else Inr (JStr []))"

text \<open>The value of the first \<open>useMemo\<close>.\<close>

record normalized =
  n_ascDeg :: "real option"
  n_cusps :: "real list"
  n_bodies :: jsval
  n_titleName :: jsval
  n_aspects :: jsval

definition normalize :: "(string \<Rightarrow> real option) \<Rightarrow> jsval \<Rightarrow> failure + normalized" where
  "normalize sn chart =
     (case cuspsOf sn chart of
        Inl e \<Rightarrow> Inl e
      | Inr cusps \<Rightarrow>
          (case titleOf chart of
             Inl e \<Rightarrow> Inl e
           | Inr title \<Rightarrow>
               Inr \<lparr>n_ascDeg = ascDegOf (ascOf chart), n_cusps = cusps,
                    n_bodies = bodiesOf chart, n_titleName = title,
                    n_aspects = aspectsOf chart\<rparr>))"

subsection \<open>Rotation\<close>

text \<open>\<open>rot\<close>: 0 without an ascendant, else \<open>wrap360(270 - ascDeg)\<close>.\<close>

fun rot :: "real option \<Rightarrow> real" where
  "rot None = 0"
| "rot (Some ascDeg) = wrap360 (fl (270 - ascDeg))"

subsection \<open>Layout constants\<close>

definition size_c :: real where "size_c = 620"
definition cx :: real where "cx = size_c / 2"
definition cy :: real where "cy = size_c / 2"
definition R_OUT :: real where "R_OUT = 292"
definition R_SIGN_IN :: real where "R_SIGN_IN = 262"
definition R_HOUSE :: real where "R_HOUSE = 205"
definition R_PLANET :: real where "R_PLANET = 245"
definition R_ASPECT :: real where "R_ASPECT = 165"
definition R_CENTER :: real where "R_CENTER = 125"
definition SIGN_RING_STROKE :: real where "SIGN_RING_STROKE = 10"
definition HOUSE_END_R :: real where "HOUSE_END_R = R_SIGN_IN + SIGN_RING_STROKE / 2 - 1"
definition R_ASPECT_DRAW :: real where "R_ASPECT_DRAW = min R_ASPECT (R_CENTER - 10)"
definition maxOrb :: real where "maxOrb = 6.0"
definition maxLines :: nat where "maxLines = 30"

text \<open>The offsets of the SVG groups that draw the planets and the aspect lines.\<close>

definition PLANET_DX :: real where "PLANET_DX = 0"
definition PLANET_DY :: real where "PLANET_DY = 0"
definition ASPECT_DX :: real where "ASPECT_DX = 0"
definition ASPECT_DY :: real where "ASPECT_DY = 0"

subsection \<open>Sign ring, house lines, ascendant line\<close>

record radialLine =
  rl_deg :: real
  rl_p1 :: xy
  rl_p2 :: xy

definition signLines :: "real \<Rightarrow> radialLine list" where
  "signLines r =
     map (\<lambda>i. let deg = wrap360 (of_nat i * 30 + r)
               in \<lparr>rl_deg = deg, rl_p1 = polar cx cy R_SIGN_IN deg,
                   rl_p2 = polar cx cy R_OUT deg\<rparr>)
         [0..<12]"

text \<open>\<open>SIGN_GLYPHS[sign]\<close> is a lookup: each of the 12 signs has its glyph.\<close>

record signLabel =
  sl_sign :: string
  sl_glyph :: "glyph option"
  sl_x :: real
  sl_y :: real

definition signLabels :: "real \<Rightarrow> signLabel list" where
  "signLabels r =
     map (\<lambda>i. let deg = wrap360 (of_nat i * 30 + 15 + r);
                   p = polar cx cy ((R_OUT + R_SIGN_IN) / 2) deg;
                   sign = SIGNS ! i
               in \<lparr>sl_sign = sign, sl_glyph = map_of SIGN_GLYPHS sign,
                   sl_x = xy_x p, sl_y = xy_y p\<rparr>)
         [0..<12]"

record houseLine =
  hl_idx :: nat
  hl_deg :: real
  hl_p1 :: xy
  hl_p2 :: xy

text \<open>\<open>(cusps?.length === 12 ? cusps : []).map((c, idx) => ...)\<close>\<close>

definition houseLines :: "real list \<Rightarrow> real \<Rightarrow> houseLine list" where
  "houseLines cusps r =
     map (\<lambda>(idx, c). let deg = wrap360 (c + r)
                      in \<lparr>hl_idx = idx + 1, hl_deg = deg,
                          hl_p1 = polar cx cy (R_CENTER - 6) deg,
                          hl_p2 = polar cx cy HOUSE_END_R deg\<rparr>)
         (List.enumerate 0 (if length cusps = 12 then cusps else []))"

text \<open>The anchor of a house number and the width of a house line, as the JSX draws them.\<close>

definition houseNumP :: "houseLine \<Rightarrow> xy" where
  "houseNumP l = polar cx cy (R_HOUSE - 20) (wrap360 (hl_deg l + 8))"

definition houseStrokeWidth :: "houseLine \<Rightarrow> real" where
  "houseStrokeWidth l = (if hl_idx l = 1 then 3.4 else 2.4)"

record ascLineRec =
  al_deg :: real
  al_p1 :: xy
  al_p2 :: xy
  al_labelP :: xy

definition ascLine :: "real option \<Rightarrow> real \<Rightarrow> ascLineRec option" where
  "ascLine ascDeg r =
     (case ascDeg of
        Some a \<Rightarrow>
          (let deg = wrap360 (a + r)
           in Some \<lparr>al_deg = deg, al_p1 = polar cx cy (R_CENTER - 6) deg,
                    al_p2 = polar cx cy R_OUT deg,
                    al_labelP = polar cx cy (R_OUT + 16) deg\<rparr>)
      | None \<Rightarrow> None)"

subsection \<open>Planet glyphs\<close>

record planetPoint =
  pp_name :: string
  pp_lon :: real
  pp_x :: real
  pp_y :: real
  pp_label :: glyph
  pp_degMin :: "int \<times> int"

text \<open>\<open>BODY_GLYPHS[name] || name.slice(0, 2)\<close>\<close>

definition glyphOf :: "string \<Rightarrow> glyph" where
  "glyphOf name =
     (case map_of BODY_GLYPHS name of
        Some g \<Rightarrow> if g = [] then map of_char (take 2 name) else g
      | None \<Rightarrow> map of_char (take 2 name))"

text \<open>
  The loop \<open>for (const name of BODY_ORDER)\<close> with its counter \<open>placed\<close> and its
  result \<open>pts\<close>; each \<open>continue\<close> is a call that leaves both unchanged.
\<close>

fun planetLoop ::
  "jsval \<Rightarrow> real \<Rightarrow> string list \<Rightarrow> nat \<Rightarrow> planetPoint list \<Rightarrow> planetPoint list" where
  "planetLoop bodies r [] placed pts = pts"
| "planetLoop bodies r (name # names) placed pts =
     (let d = optGet bodies name in
      if \<not> truthy d then planetLoop bodies r names placed pts
      else if optGet d ''available'' = JBool False then planetLoop bodies r names placed pts
      else
        (case optGet d ''lon'' of
           JNum lon \<Rightarrow>
             (let rad = R_PLANET - of_nat (placed mod 3) * 12;
                  deg = wrap360 (lon + r);
                  p = polar cx cy rad deg;
                  glyph = glyphOf name;
                  degInSign =
                    (case optGet d ''deg_in_sign'' of
                       JNum v \<Rightarrow> v
                     | _ \<Rightarrow> sd_degInSign (lonToSignDeg lon))
              in planetLoop bodies r names (placed + 1)
                   (pts @ [\<lparr>pp_name = name, pp_lon = lon, pp_x = xy_x p, pp_y = xy_y p,
                            pp_label = glyph, pp_degMin = degToDegMin degInSign\<rparr>]))
         | _ \<Rightarrow> planetLoop bodies r names placed pts))"

text \<open>\<open>if (!bodies) return [];\<close> comes before the loop.\<close>

definition planetPoints :: "jsval \<Rightarrow> real \<Rightarrow> planetPoint list" where
  "planetPoints bodies r =
     (if \<not> truthy bodies then [] else planetLoop bodies r BODY_ORDER 0 [])"

record namedPoint =
  np_x :: real
  np_y :: real
  np_lon :: real

text \<open>\<open>pointByName\<close>: a \<open>Map\<close> filled by \<open>map.set(p.name, ...)\<close> in the order of the points.\<close>

definition pointByName :: "planetPoint list \<Rightarrow> (string \<rightharpoonup> namedPoint)" where
  "pointByName pts =
     foldl (\<lambda>m p. m(pp_name p \<mapsto> \<lparr>np_x = pp_x p, np_y = pp_y p, np_lon = pp_lon p\<rparr>))
       Map.empty pts"

subsection \<open>Aspect lines\<close>

record chord =
  ch_key :: string
  ch_x1 :: real
  ch_y1 :: real
  ch_x2 :: real
  ch_y2 :: real
  ch_stroke :: string
  ch_width :: real
  ch_opacity :: real

text \<open>\<open>!s\<close> on a field of a row: missing or the empty string.\<close>

fun falsyField :: "string option \<Rightarrow> bool" where
  "falsyField None = True"
| "falsyField (Some s) = (s = [])"

fun fieldStr :: "string option \<Rightarrow> string" where
  "fieldStr None = []"
| "fieldStr (Some s) = s"

text \<open>\<open>typeof a.orb === "number" ? a.orb : 999\<close>\<close>

fun orbOf :: "AspectRow \<Rightarrow> real" where
  "orbOf a = (case ar_orb a of Some v \<Rightarrow> v | None \<Rightarrow> 999)"

text \<open>
  \<open>[a.p1, a.p2].sort().join("|") + "|" + a.aspect\<close>: the default sort puts the second
  name first when it is the smaller one by code units.
\<close>

definition keyRaw :: "AspectRow \<Rightarrow> string" where
  "keyRaw a =
     (let n1 = fieldStr (ar_p1 a); n2 = fieldStr (ar_p2 a);
          sorted = (if n2 < n1 then [n2, n1] else [n1, n2])
      in sorted ! 0 @ ''|'' @ sorted ! 1 @ ''|'' @ fieldStr (ar_aspect a))"

text \<open>
  The loop \<open>for (const a of merged)\<close> with the set \<open>seen\<close> and the result \<open>out\<close>. A
  \<open>continue\<close> goes on with the next row, the \<open>break\<close> returns \<open>out\<close>.
\<close>

fun aspectLoop ::
  "(string \<rightharpoonup> namedPoint) \<Rightarrow> real \<Rightarrow> AspectRow list \<Rightarrow> string set \<Rightarrow> chord list
   \<Rightarrow> chord list" where
  "aspectLoop P r [] seen out = out"
| "aspectLoop P r (a # as) seen out =
     (if falsyField (ar_p1 a) \<or> falsyField (ar_p2 a) \<or> falsyField (ar_aspect a)
      then aspectLoop P r as seen out
      else if orbOf a > maxOrb then aspectLoop P r as seen out
      else if keyRaw a \<in> seen then aspectLoop P r as seen out
      else
        (case (P (fieldStr (ar_p1 a)), P (fieldStr (ar_p2 a))) of
           (Some p1, Some p2) \<Rightarrow>
             (let d1 = wrap360 (np_lon p1 + r);
                  d2 = wrap360 (np_lon p2 + r);
                  q1 = polar cx cy R_ASPECT_DRAW d1;
                  q2 = polar cx cy R_ASPECT_DRAW d2;
                  st = aspectStyle (fieldStr (ar_aspect a));
                  out' = out @ [\<lparr>ch_key = keyRaw a,
                                 ch_x1 = xy_x q1, ch_y1 = xy_y q1,
                                 ch_x2 = xy_x q2, ch_y2 = xy_y q2,
                                 ch_stroke = st_stroke st, ch_width = st_width st,
                                 ch_opacity = st_opacity st\<rparr>]
              in if length out' \<ge> maxLines then out'
                 else aspectLoop P r as (insert (keyRaw a) seen) out')
         | _ \<Rightarrow> aspectLoop P r as (insert (keyRaw a) seen) out))"

definition aspectLines :: "(string \<rightharpoonup> namedPoint) \<Rightarrow> real \<Rightarrow> AspectRow list \<Rightarrow> chord list" where
  "aspectLines P r merged = aspectLoop P r merged {} []"

text \<open>
  The rows are read from \<open>aspects\<close> inside the \<open>useMemo\<close> of \<open>aspectLines\<close>.
\<close>

definition aspectLinesOf ::
  "jsval \<Rightarrow> (string \<rightharpoonup> namedPoint) \<Rightarrow> real \<Rightarrow> failure + chord list" where
  "aspectLinesOf aspects P r =
     (case rowsOf aspects of
        Inl e \<Rightarrow> Inl e
      | Inr merged \<Rightarrow> Inr (aspectLines P r merged))"

text \<open>
  The groups that draw the planets and the aspect lines are translated by
  \<open>(PLANET_DX, PLANET_DY)\<close> and by \<open>(PLANET_DX + ASPECT_DX, PLANET_DY + ASPECT_DY)\<close>.
\<close>

definition planetScreen :: "planetPoint \<Rightarrow> xy" where
  "planetScreen p = \<lparr>xy_x = pp_x p + PLANET_DX, xy_y = pp_y p + PLANET_DY\<rparr>"

definition chordScreen1 :: "chord \<Rightarrow> xy" where
  "chordScreen1 c =
     \<lparr>xy_x = ch_x1 c + (PLANET_DX + ASPECT_DX), xy_y = ch_y1 c + (PLANET_DY + ASPECT_DY)\<rparr>"

definition chordScreen2 :: "chord \<Rightarrow> xy" where
  "chordScreen2 c =
     \<lparr>xy_x = ch_x2 c + (PLANET_DX + ASPECT_DX), xy_y = ch_y2 c + (PLANET_DY + ASPECT_DY)\<rparr>"

subsection \<open>The scene\<close>

record scene =
  sc_signLines :: "radialLine list"
  sc_signLabels :: "signLabel list"
  sc_houseLines :: "houseLine list"
  sc_ascLine :: "ascLineRec option"
  sc_planetPoints :: "planetPoint list"
  sc_aspectLines :: "chord list"
  sc_titleName :: jsval

text \<open>
  One evaluation of the body of the component without its memo cells: every value is
  computed from the chart.
\<close>

definition ChartWheel :: "(string \<Rightarrow> real option) \<Rightarrow> jsval \<Rightarrow> failure + scene" where
  "ChartWheel sn chart =
     (case normalize sn chart of
        Inl e \<Rightarrow> Inl e
      | Inr n \<Rightarrow>
          (let r = rot (n_ascDeg n);
               pts = planetPoints (n_bodies n) r
           in case aspectLinesOf (n_aspects n) (pointByName pts) r of
                Inl e \<Rightarrow> Inl e
              | Inr chords \<Rightarrow>
                  Inr \<lparr>sc_signLines = signLines r,
                       sc_signLabels = signLabels r,
                       sc_houseLines = houseLines (n_cusps n) r,
                       sc_ascLine = ascLine (n_ascDeg n) r,
                       sc_planetPoints = pts,
                       sc_aspectLines = chords,
                       sc_titleName = n_titleName n\<rparr>))"

subsection \<open>The memo cells\<close>

text \<open>
  The component keeps seven \<open>useMemo\<close> cells between renders. A cell holds the
  dependencies and the value of its last computation; a render reuses the value when the
  dependencies are those of the cell and computes it otherwise. React compares
  dependencies by identity, the model by equality. The function of a cell reads
  its dependencies and constants only, so it is a function of the dependencies. The
  constants among the dependencies (\<open>cx\<close>, \<open>cy\<close>, the radii) never change and are
  left out of the cells.
\<close>

type_synonym ('d, 'v) cell = "('d \<times> 'v) option"

definition useMemo :: "('d, 'v) cell \<Rightarrow> 'd \<Rightarrow> ('d \<Rightarrow> 'v) \<Rightarrow> 'v \<times> ('d, 'v) cell" where
  "useMemo cell deps f =
     (case cell of
        Some (d, v) \<Rightarrow> if d = deps then (v, cell) else (f deps, Some (deps, f deps))
      | None \<Rightarrow> (f deps, Some (deps, f deps)))"

text \<open>A cell whose function may fail: the failure leaves the render, nothing is stored.\<close>

definition useMemoE ::
  "('d, 'v) cell \<Rightarrow> 'd \<Rightarrow> ('d \<Rightarrow> failure + 'v) \<Rightarrow> failure + 'v \<times> ('d, 'v) cell" where
  "useMemoE cell deps f =
     (let compute = (case f deps of Inl e \<Rightarrow> Inl e | Inr v \<Rightarrow> Inr (v, Some (deps, v)))
      in case cell of
           Some (d, v) \<Rightarrow> if d = deps then Inr (v, cell) else compute
         | None \<Rightarrow> compute)"

record cells =
  c_normalized :: "(jsval, normalized) cell"
  c_rot :: "(real option, real) cell"
  c_signLines :: "(real, radialLine list) cell"
  c_signLabels :: "(real, signLabel list) cell"
  c_planetPoints :: "(jsval \<times> real, planetPoint list) cell"
  c_pointByName :: "(planetPoint list, string \<rightharpoonup> namedPoint) cell"
  c_aspectLines :: "(jsval \<times> (string \<rightharpoonup> namedPoint) \<times> real, chord list) cell"

text \<open>The cells of a component that has just been mounted.\<close>

definition mount :: cells where
  "mount = \<lparr>c_normalized = None, c_rot = None, c_signLines = None, c_signLabels = None,
            c_planetPoints = None, c_pointByName = None, c_aspectLines = None\<rparr>"

text \<open>
  One render: the body of \<open>ChartWheel\<close> with its hooks in order. A render that fails
  unmounts the component.
\<close>

definition render ::
  "(string \<Rightarrow> real option) \<Rightarrow> cells \<Rightarrow> jsval \<Rightarrow> cells \<times> (failure + scene)" where
  "render sn cs chart =
     (case useMemoE (c_normalized cs) chart (normalize sn) of
        Inl e \<Rightarrow> (mount, Inl e)
      | Inr (n, k1) \<Rightarrow>
          (let (r, k2) = useMemo (c_rot cs) (n_ascDeg n) rot;
               (sLines, k3) = useMemo (c_signLines cs) r signLines;
               (sLabels, k4) = useMemo (c_signLabels cs) r signLabels;
               hLines = houseLines (n_cusps n) r;
               aLine = ascLine (n_ascDeg n) r;
               (pts, k5) = useMemo (c_planetPoints cs) (n_bodies n, r)
                             (\<lambda>(bodies, r). planetPoints bodies r);
               (P, k6) = useMemo (c_pointByName cs) pts pointByName
           in case useMemoE (c_aspectLines cs) (n_aspects n, P, r)
                     (\<lambda>(aspects, P, r). aspectLinesOf aspects P r) of
                Inl e \<Rightarrow> (mount, Inl e)
              | Inr (chords, k7) \<Rightarrow>
                  (\<lparr>c_normalized = k1, c_rot = k2, c_signLines = k3, c_signLabels = k4,
                    c_planetPoints = k5, c_pointByName = k6, c_aspectLines = k7\<rparr>,
                   Inr \<lparr>sc_signLines = sLines,
                        sc_signLabels = sLabels,
                        sc_houseLines = hLines,
                        sc_ascLine = aLine,
                        sc_planetPoints = pts,
                        sc_aspectLines = chords,
                        sc_titleName = n_titleName n\<rparr>)))"

text \<open>The cells after the renders of a list of charts, the oldest first.\<close>

definition after :: "(string \<Rightarrow> real option) \<Rightarrow> jsval list \<Rightarrow> cells" where
  "after sn history = foldl (\<lambda>cs chart. fst (render sn cs chart)) mount history"

section \<open>Definitions used to state the properties\<close>

text \<open>
  The longitude at which the loop of \<open>planetPoints\<close> places a name, if it places it:
  the entry exists, is not marked \<open>available: false\<close>, and has a numeric \<open>lon\<close>.
\<close>

definition placedLon :: "jsval \<Rightarrow> string \<Rightarrow> real option" where
  "placedLon bodies name =
     (let d = optGet bodies name in
      if \<not> truthy d then None
      else if optGet d ''available'' = JBool False then None
      else (case optGet d ''lon'' of JNum lon \<Rightarrow> Some lon | _ \<Rightarrow> None))"

text \<open>The point \<open>p\<close> is drawn on the ring of the \<open>k\<close>-th placed body.\<close>

definition onRing :: "real \<Rightarrow> nat \<Rightarrow> planetPoint \<Rightarrow> bool" where
  "onRing r k p =
     (\<lparr>xy_x = pp_x p, xy_y = pp_y p\<rparr>
        = polar cx cy (R_PLANET - of_nat (k mod 3) * 12) (wrap360 (pp_lon p + r)))"

text \<open>The three stages of the loop of \<open>aspectLines\<close>, each on its own.\<close>

definition rowPasses :: "AspectRow \<Rightarrow> bool" where
  "rowPasses a =
     (\<not> falsyField (ar_p1 a) \<and> \<not> falsyField (ar_p2 a) \<and> \<not> falsyField (ar_aspect a)
      \<and> orbOf a \<le> maxOrb)"

fun firstByKey :: "string set \<Rightarrow> AspectRow list \<Rightarrow> AspectRow list" where
  "firstByKey seen [] = []"
| "firstByKey seen (a # as) =
     (if keyRaw a \<in> seen then firstByKey seen as
      else a # firstByKey (insert (keyRaw a) seen) as)"

definition chordOf :: "(string \<rightharpoonup> namedPoint) \<Rightarrow> real \<Rightarrow> AspectRow \<Rightarrow> chord option" where
  "chordOf P r a =
     (case (P (fieldStr (ar_p1 a)), P (fieldStr (ar_p2 a))) of
        (Some p1, Some p2) \<Rightarrow>
          Some \<lparr>ch_key = keyRaw a,
                ch_x1 = xy_x (polar cx cy R_ASPECT_DRAW (wrap360 (np_lon p1 + r))),
                ch_y1 = xy_y (polar cx cy R_ASPECT_DRAW (wrap360 (np_lon p1 + r))),
                ch_x2 = xy_x (polar cx cy R_ASPECT_DRAW (wrap360 (np_lon p2 + r))),
                ch_y2 = xy_y (polar cx cy R_ASPECT_DRAW (wrap360 (np_lon p2 + r))),
                ch_stroke = st_stroke (aspectStyle (fieldStr (ar_aspect a))),
                ch_width = st_width (aspectStyle (fieldStr (ar_aspect a))),
                ch_opacity = st_opacity (aspectStyle (fieldStr (ar_aspect a)))\<rparr>
      | _ \<Rightarrow> None)"

text \<open>
  The ascendant candidates in their order of priority, the first of them that is a
  number (the selection the specification words), and the first of them that is neither
  \<open>null\<close> nor \<open>undefined\<close> (the selection of \<open>??\<close>).
\<close>

definition ascCandidates :: "jsval \<Rightarrow> jsval list" where
  "ascCandidates chart =
     [optGet (optGet chart ''houses'') ''ascendant'',
      optGet (optGet (optGet chart ''points'') ''Asc'') ''lon'',
      optGet (optGet (optGet chart ''points'') ''ASC'') ''lon'']"

fun firstNumeric :: "jsval list \<Rightarrow> real option" where
  "firstNumeric [] = None"
| "firstNumeric (JNum a # vs) = Some a"
| "firstNumeric (v # vs) = firstNumeric vs"

fun firstDefined :: "jsval list \<Rightarrow> jsval" where
  "firstDefined [] = JNull"
| "firstDefined (v # vs) = (if nullish v then firstDefined vs else v)"

fun isNum :: "jsval \<Rightarrow> bool" where
  "isNum (JNum a) = True"
| "isNum _ = False"

text \<open>
  A memo cell is consistent with the function of its hook when it is empty or holds the
  value of that function at the dependencies it holds.
\<close>

definition cellOf :: "('d \<Rightarrow> 'v) \<Rightarrow> ('d, 'v) cell \<Rightarrow> bool" where
  "cellOf f cell = (case cell of None \<Rightarrow> True | Some (d, v) \<Rightarrow> v = f d)"

definition cellOfE :: "('d \<Rightarrow> failure + 'v) \<Rightarrow> ('d, 'v) cell \<Rightarrow> bool" where
  "cellOfE f cell = (case cell of None \<Rightarrow> True | Some (d, v) \<Rightarrow> f d = Inr v)"

definition consistent :: "(string \<Rightarrow> real option) \<Rightarrow> cells \<Rightarrow> bool" where
  "consistent sn cs =
     (cellOfE (normalize sn) (c_normalized cs)
      \<and> cellOf rot (c_rot cs)
      \<and> cellOf signLines (c_signLines cs)
      \<and> cellOf signLabels (c_signLabels cs)
      \<and> cellOf (\<lambda>(bodies, r). planetPoints bodies r) (c_planetPoints cs)
      \<and> cellOf pointByName (c_pointByName cs)
      \<and> cellOfE (\<lambda>(aspects, P, r). aspectLinesOf aspects P r) (c_aspectLines cs))"

subsection \<open>Example inputs\<close>

definition mkRow :: "string \<Rightarrow> string \<Rightarrow> string \<Rightarrow> real \<Rightarrow> AspectRow" where
  "mkRow n1 n2 t orb =
     \<lparr>ar_p1 = Some n1, ar_p2 = Some n2, ar_aspect = Some t, ar_orb = Some orb\<rparr>"

definition bodiesSunMoon :: jsval where
  "bodiesSunMoon =
     JObj [(''Sun'', JObj [(''lon'', JNum 90)]), (''Moon'', JObj [(''lon'', JNum 270)])]"

definition bodiesConjunct :: jsval where
  "bodiesConjunct =
     JObj [(''Sun'', JObj [(''lon'', JNum 90)]), (''Moon'', JObj [(''lon'', JNum 90)])]"

definition pointsSunMoon :: "string \<rightharpoonup> namedPoint" where
  "pointsSunMoon = pointByName (planetPoints bodiesSunMoon 0)"

definition bodiesSix :: jsval where
  "bodiesSix =
     JObj [(''Sun'', JObj [(''lon'', JNum 90)]),
           (''Moon'', JObj [(''lon'', JNum 10), (''available'', JBool False)]),
           (''Mercury'', JObj [(''lon'', JNum 20)]),
           (''Venus'', JObj [(''lon'', JStr ''30'')]),
           (''Mars'', JObj [(''lon'', JNum 40)]),
           (''Jupiter'', JObj [(''lon'', JNum 50)])]"

definition bodiesCeres :: jsval where
  "bodiesCeres =
     JObj [(''Ceres'', JObj [(''lon'', JNum 90), (''available'', JBool True)]),
           (''Sun'', JObj [(''lon'', JNum 270)])]"

definition chartAscText :: jsval where
  "chartAscText =
     JObj [(''houses'', JObj [(''ascendant'', JStr ''100'')]),
           (''points'', JObj [(''Asc'', JObj [(''lon'', JNum 100)])])]"

definition chartAscNull :: jsval where
  "chartAscNull =
     JObj [(''houses'', JObj [(''ascendant'', JNull)]),
           (''points'', JObj [(''ASC'', JObj [(''lon'', JNum 100)])])]"




section \<open>Properties\<close>

lemmas layout_defs =
  size_c_def cx_def cy_def R_OUT_def R_SIGN_IN_def R_HOUSE_def R_PLANET_def R_ASPECT_def
  R_CENTER_def SIGN_RING_STROKE_def HOUSE_END_R_def R_ASPECT_DRAW_def maxOrb_def
  maxLines_def PLANET_DX_def PLANET_DY_def ASPECT_DX_def ASPECT_DY_def


subsection \<open>Rounding\<close>

lemma fl_zero [simp]: "fl 0 = 0"
  by (simp add: fl_def)

lemma ulp_pos: "0 < ulp x"
  by (simp add: ulp_def)

lemma roundEven_of_int [simp]: "roundEven (of_int k) = k"
  by (simp add: roundEven_def)

lemma roundEven_error: "\<bar>of_int (roundEven t) - t\<bar> \<le> 1 / 2"
  unfolding roundEven_def Let_def by (auto; linarith)

lemma roundEven_nonneg: "0 \<le> t \<Longrightarrow> 0 \<le> roundEven t"
  unfolding roundEven_def Let_def by (auto; linarith)

lemma roundEven_le: "t \<le> of_int N \<Longrightarrow> roundEven t \<le> N"
proof -
  assume t: "t \<le> of_int N"
  show ?thesis
  proof (cases "t = of_int N")
    case True
    then show ?thesis by simp
  next
    case False
    with t have "t < of_int N" by simp
    then have "\<lfloor>t\<rfloor> < N" by (simp add: floor_less_iff)
    then show ?thesis
      unfolding roundEven_def Let_def by auto
  qed
qed

lemma roundEven_near:
  assumes "\<bar>s\<bar> \<le> 1 / 2" "even N"
  shows "roundEven (of_int N + s) = N"
proof -
  consider "0 \<le> s" | "s < 0" by linarith
  then show ?thesis
  proof cases
    case 1
    with assms have fl: "\<lfloor>of_int N + s\<rfloor> = N" by (simp add: floor_eq_iff) 
    then show ?thesis using assms 1 by (simp add: roundEven_def Let_def)
  next
    case 2
    with assms have fl: "\<lfloor>of_int N + s\<rfloor> = N - 1" by (simp add: floor_eq_iff) 
    have "odd (N - 1)" using assms by simp
    then show ?thesis using assms 2 fl by (auto simp: roundEven_def Let_def)
  qed
qed

lemma binade_bounds:
  assumes "x \<noteq> 0"
  shows "2 powr of_int (binade x) \<le> \<bar>x\<bar>" "\<bar>x\<bar> < 2 powr (of_int (binade x) + 1)"
proof -
  have pos: "0 < \<bar>x\<bar>" using assms by simp
  have "of_int (binade x) \<le> log 2 \<bar>x\<bar>" by (simp add: binade_def)
  then show "2 powr of_int (binade x) \<le> \<bar>x\<bar>"
    using pos by (simp add: le_log_iff)
  have "log 2 \<bar>x\<bar> < of_int (binade x) + 1" by (simp add: binade_def)
  then show "\<bar>x\<bar> < 2 powr (of_int (binade x) + 1)"
    using pos by (simp add: log_less_iff)
qed

lemma binade_eqI:
  assumes "2 powr of_int e \<le> \<bar>x\<bar>" "\<bar>x\<bar> < 2 powr (of_int e + 1)"
  shows "binade x = e"
proof -
  have pos: "0 < \<bar>x\<bar>" using assms(1) by (smt (verit) powr_gt_zero)
  have "of_int e \<le> log 2 \<bar>x\<bar>" using assms(1) pos by (simp add: le_log_iff)
  moreover have "log 2 \<bar>x\<bar> < of_int e + 1" using assms(2) pos by (simp add: log_less_iff)
  ultimately show ?thesis unfolding binade_def by (simp add: floor_eq_iff)
qed

lemma binade_le:
  assumes "x \<noteq> 0" "\<bar>x\<bar> < 2 powr (of_int e + 1)"
  shows "binade x \<le> e"
proof -
  have pos: "0 < \<bar>x\<bar>" using assms by simp
  have "log 2 \<bar>x\<bar> < of_int e + 1" using assms(2) pos by (simp add: log_less_iff)
  then show ?thesis unfolding binade_def by (simp add: floor_le_iff) 
qed

lemma roundEven_ge: "of_int N \<le> t \<Longrightarrow> N \<le> roundEven t"
proof -
  assume "of_int N \<le> t"
  then have "N \<le> \<lfloor>t\<rfloor>" by (simp add: le_floor_iff)
  then show ?thesis unfolding roundEven_def Let_def by auto
qed


lemma pow2_ratio:
  assumes "j \<le> k"
  shows "(2::real) powr of_int k = 2 powr of_int j * of_int (2 ^ nat (k - j))"
proof -
  have "of_int k = of_int j + real (nat (k - j))" using assms by simp
  then have "(2::real) powr of_int k = 2 powr of_int j * 2 powr real (nat (k - j))"
    by (simp only: powr_add)
  also have "(2::real) powr real (nat (k - j)) = 2 ^ nat (k - j)"
    by (simp add: powr_realpow)
  finally show ?thesis by simp
qed

lemma ulp_grain:
  assumes "x \<noteq> 0" "\<bar>x\<bar> < 2 powr of_int (e + 1)" "- 1022 \<le> e" "e - 52 \<le> k"
  shows "\<exists>P::int. 0 < P \<and> 2 powr of_int k = ulp x * of_int P"
proof -
  have "\<bar>x\<bar> < 2 powr (of_int e + 1)" using assms(2) by simp
  with assms(1) have "binade x \<le> e" by (rule binade_le)
  with assms(3,4) have "max (binade x) (- 1022) - 52 \<le> k" by simp
  then have "2 powr of_int k = ulp x * of_int (2 ^ nat (k - (max (binade x) (- 1022) - 52)))"
    unfolding ulp_def by (rule pow2_ratio)
  then show ?thesis by (intro exI conjI) (auto simp del: of_int_power)
qed

text \<open>
  Rounding does not cross a double: a multiple of a power of two that is at least the
  spacing bounds \<open>fl x\<close> when it bounds \<open>x\<close>.
\<close>

lemma fl_le:
  assumes "x \<le> of_int M * 2 powr of_int k"
      and "\<bar>x\<bar> < 2 powr of_int (e + 1)" "- 1022 \<le> e" "e - 52 \<le> k"
  shows "fl x \<le> of_int M * 2 powr of_int k"
proof (cases "x = 0")
  case True
  with assms(1) show ?thesis by simp
next
  case False
  then obtain P :: int where P: "2 powr of_int k = ulp x * of_int P"
    using ulp_grain [OF _ assms(2-4)] by blast
  have "x \<le> of_int (M * P) * ulp x" using assms(1) P by (simp add: mult.commute mult.left_commute)
  then have "x / ulp x \<le> of_int (M * P)" using ulp_pos [of x] by (simp add: pos_divide_le_eq)
  then have "roundEven (x / ulp x) \<le> M * P" by (rule roundEven_le)
  then have "(of_int (roundEven (x / ulp x)) :: real) \<le> of_int (M * P)" by (simp only: of_int_le_iff)
  then have "ulp x * of_int (roundEven (x / ulp x)) \<le> ulp x * of_int (M * P)"
    using ulp_pos [of x] by (simp only: mult_le_cancel_left_pos)
  then show ?thesis using False P by (simp add: fl_def mult.commute mult.left_commute)
qed

lemma fl_ge:
  assumes "of_int M * 2 powr of_int k \<le> x"
      and "\<bar>x\<bar> < 2 powr of_int (e + 1)" "- 1022 \<le> e" "e - 52 \<le> k"
  shows "of_int M * 2 powr of_int k \<le> fl x"
proof (cases "x = 0")
  case True
  with assms(1) show ?thesis by simp
next
  case False
  then obtain P :: int where P: "2 powr of_int k = ulp x * of_int P"
    using ulp_grain [OF _ assms(2-4)] by blast
  have "of_int (M * P) * ulp x \<le> x" using assms(1) P by (simp add: mult.commute mult.left_commute)
  then have "of_int (M * P) \<le> x / ulp x" using ulp_pos [of x] by (simp add: pos_le_divide_eq)
  then have "M * P \<le> roundEven (x / ulp x)" by (rule roundEven_ge)
  then have "(of_int (M * P) :: real) \<le> of_int (roundEven (x / ulp x))" by (simp only: of_int_le_iff)
  then have "ulp x * of_int (M * P) \<le> ulp x * of_int (roundEven (x / ulp x))"
    using ulp_pos [of x] by (simp only: mult_le_cancel_left_pos)
  then show ?thesis using False P by (simp add: fl_def mult.commute mult.left_commute)
qed

lemma fl_exact:
  assumes "x = of_int M * 2 powr of_int k"
      and "\<bar>x\<bar> < 2 powr of_int (e + 1)" "- 1022 \<le> e" "e - 52 \<le> k"
  shows "fl x = x"
proof -
  have "fl x \<le> of_int M * 2 powr of_int k"
    using assms by (intro fl_le [where e = e]) simp_all
  moreover have "of_int M * 2 powr of_int k \<le> fl x"
    using assms by (intro fl_ge [where e = e]) simp_all
  ultimately show ?thesis using assms(1) by simp
qed

lemma fl_of_int:
  assumes "\<bar>n\<bar> < 2 ^ 53"
  shows "fl (of_int n) = of_int n"
proof -
  have "\<bar>real_of_int n\<bar> < 2 ^ 53" using assms by (metis of_int_abs of_int_less_numeral_power_cancel_iff)
  then have "\<bar>real_of_int n\<bar> < 2 powr of_int (52 + 1)" by simp
  then show ?thesis
    by (intro fl_exact [where M = n and k = 0 and e = 52]) simp_all
qed

lemma fl_error:
  assumes "x \<noteq> 0"
  shows "\<bar>fl x - x\<bar> \<le> ulp x / 2"
proof -
  have "\<bar>of_int (roundEven (x / ulp x)) - x / ulp x\<bar> \<le> 1 / 2"
    by (rule roundEven_error)
  then have "ulp x * \<bar>of_int (roundEven (x / ulp x)) - x / ulp x\<bar> \<le> ulp x * (1 / 2)"
    using ulp_pos [of x] by (simp only: mult_le_cancel_left_pos)
  moreover have "ulp x * \<bar>of_int (roundEven (x / ulp x)) - x / ulp x\<bar>
      = \<bar>ulp x * of_int (roundEven (x / ulp x)) - x\<bar>"
  proof -
    have "ulp x * \<bar>of_int (roundEven (x / ulp x)) - x / ulp x\<bar>
        = \<bar>ulp x * (of_int (roundEven (x / ulp x)) - x / ulp x)\<bar>"
      using ulp_pos [of x] by (simp add: abs_mult)
    also have "ulp x * (of_int (roundEven (x / ulp x)) - x / ulp x)
        = ulp x * of_int (roundEven (x / ulp x)) - x"
      using ulp_pos [of x] by (simp add: right_diff_distrib)
    finally show ?thesis .
  qed
  ultimately show ?thesis using assms by (simp add: fl_def)
qed

lemma fl_nonneg: "0 \<le> x \<Longrightarrow> 0 \<le> fl x"
  using ulp_pos [of x] by (simp add: fl_def roundEven_nonneg)

lemma ulp_le:
  assumes "x \<noteq> 0" "\<bar>x\<bar> < 2 powr of_int (e + 1)" "- 1022 \<le> e"
  shows "ulp x \<le> 2 powr of_int (e - 52)"
proof -
  have "\<bar>x\<bar> < 2 powr (of_int e + 1)" using assms(2) by simp
  with assms(1) have "binade x \<le> e" by (rule binade_le)
  then have "max (binade x) (- 1022) - 52 \<le> e - 52" using assms(3) by simp
  then show ?thesis unfolding ulp_def by (simp only: powr_le_cancel_iff of_int_le_iff)
qed

lemma ulp_eq:
  assumes "2 powr of_int e \<le> \<bar>x\<bar>" "\<bar>x\<bar> < 2 powr of_int (e + 1)" "- 1022 \<le> e"
  shows "ulp x = 2 powr of_int (e - 52)"
proof -
  have "\<bar>x\<bar> < 2 powr (of_int e + 1)" using assms(2) by simp
  with assms(1) have "binade x = e" by (rule binade_eqI)
  then show ?thesis using assms(3) by (simp add: ulp_def max_def)
qed

lemma powr2_neg_numeral: "(2::real) powr - numeral n = 1 / 2 ^ numeral n"
proof -
  have "(2::real) powr - numeral n = inverse (2 powr numeral n)" by (rule powr_minus)
  also have "(2::real) powr numeral n = 2 ^ numeral n" by (rule powr_numeral) simp
  finally show ?thesis by (simp only: inverse_eq_divide)
qed

text \<open>
  Below 512 a rounding moves a number by at most \<open>1 / 2 ^ 45\<close>, below 256 by half
  of that.
\<close>

lemma fl_error_512:
  assumes "\<bar>x\<bar> < 512"
  shows "\<bar>fl x - x\<bar> \<le> 1 / 2 ^ 45"
proof (cases "x = 0")
  case True
  then show ?thesis by simp
next
  case False
  have "\<bar>x\<bar> < 2 powr of_int (8 + 1)" using assms by simp
  with False have "ulp x \<le> 2 powr of_int (8 - 52)" by (rule ulp_le) simp
  then have "ulp x \<le> 1 / 2 ^ 44" by (simp add: powr2_neg_numeral)
  moreover have "\<bar>fl x - x\<bar> \<le> ulp x / 2" using False by (rule fl_error)
  ultimately show ?thesis by simp
qed

lemma fl_error_256:
  assumes "\<bar>x\<bar> < 256"
  shows "\<bar>fl x - x\<bar> \<le> 1 / 2 ^ 46"
proof (cases "x = 0")
  case True
  then show ?thesis by simp
next
  case False
  have "\<bar>x\<bar> < 2 powr of_int (7 + 1)" using assms by simp
  with False have "ulp x \<le> 2 powr of_int (7 - 52)" by (rule ulp_le) simp
  then have "ulp x \<le> 1 / 2 ^ 45" by (simp add: powr2_neg_numeral)
  moreover have "\<bar>fl x - x\<bar> \<le> ulp x / 2" using False by (rule fl_error)
  ultimately show ?thesis by simp
qed

text \<open>Between 256 and 512 the doubles are the multiples of \<open>1 / 2 ^ 44\<close>.\<close>

lemma ulp_256:
  assumes "256 \<le> \<bar>x\<bar>" "\<bar>x\<bar> < 512"
  shows "ulp x = 1 / 2 ^ 44"
proof -
  have "ulp x = 2 powr of_int (8 - 52)"
    using assms by (intro ulp_eq) simp_all
  then show ?thesis by (simp add: powr2_neg_numeral)
qed

lemma fl_256:
  assumes "256 \<le> \<bar>x\<bar>" "\<bar>x\<bar> < 512"
  shows "fl x = of_int (roundEven (x * 2 ^ 44)) / 2 ^ 44"
proof -
  have u: "ulp x = 1 / 2 ^ 44" using assms by (rule ulp_256)
  have "x \<noteq> 0" using assms(1) by auto
  then have "fl x = ulp x * of_int (roundEven (x / ulp x))" by (simp add: fl_def)
  also have "\<dots> = (1 / 2 ^ 44) * of_int (roundEven (x / (1 / 2 ^ 44)))" by (simp only: u)
  finally show ?thesis by simp
qed

lemma fl_near_256:
  assumes "256 \<le> \<bar>x\<bar>" "\<bar>x\<bar> < 512" "x = (of_int N + s) / 2 ^ 44" "\<bar>s\<bar> \<le> 1 / 2" "even N"
  shows "fl x = of_int N / 2 ^ 44"
proof -
  have "x * 2 ^ 44 = of_int N + s" by (simp add: assms(3))
  then have "roundEven (x * 2 ^ 44) = N" using assms(4,5) by (simp add: roundEven_near)
  then show ?thesis using assms(1,2) by (simp only: fl_256)
qed


text \<open>A double of magnitude 256 or more is a multiple of \<open>1 / 2 ^ 44\<close>.\<close>

lemma double_grain_44:
  assumes "fl A = A" "256 \<le> \<bar>A\<bar>"
  shows "\<exists>G::int. A = of_int G / 2 ^ 44"
proof -
  have nz: "A \<noteq> 0" using assms(2) by auto
  have "(8::real) \<le> log 2 \<bar>A\<bar>"
    using assms(2) nz by (simp add: le_log_iff)
  then have "8 \<le> binade A"
    unfolding binade_def by (simp add: le_floor_iff)
  then have "- 44 \<le> max (binade A) (- 1022) - 52" by simp
  then have "ulp A = 2 powr of_int (- 44) * of_int (2 ^ nat (max (binade A) (- 1022) - 52 - (- 44)))"
    unfolding ulp_def by (rule pow2_ratio)
  then obtain P :: int where P: "ulp A = of_int P / 2 ^ 44"
    by (simp add: powr2_neg_numeral del: of_int_power)
  have "A = ulp A * of_int (roundEven (A / ulp A))"
    using assms(1) nz by (simp add: fl_def)
  then have "A = of_int (P * roundEven (A / ulp A)) / 2 ^ 44"
    unfolding P by simp
  then show ?thesis ..
qed


subsection \<open>wrap360\<close>

lemma js_rem_360_bounds: "- 360 < js_rem d 360 \<and> js_rem d 360 < 360"
  unfolding js_rem_def trunc_def by (simp; linarith)


lemma js_rem_small: "- 360 < d \<Longrightarrow> d < 360 \<Longrightarrow> js_rem d 360 = d"
proof -
  assume d: "- 360 < d" "d < 360"
  have "trunc (d / 360) = 0"
  proof (cases "d < 0")
    case True
    then have "\<lceil>d / 360\<rceil> = 0" using d by (simp add: ceiling_eq_iff)
    with True show ?thesis by (simp add: trunc_def)
  next
    case False
    then have "\<lfloor>d / 360\<rfloor> = 0" using d by (simp add: floor_eq_iff)
    with False show ?thesis by (simp add: trunc_def)
  qed
  then show ?thesis by (simp add: js_rem_def)
qed

lemma wrap360_id: "0 \<le> d \<Longrightarrow> d < 360 \<Longrightarrow> wrap360 d = d"
  by (simp add: wrap360_def Let_def js_rem_small)

lemma wrap360_neg: "- 360 < d \<Longrightarrow> d < 0 \<Longrightarrow> wrap360 d = fl (d + 360)"
  by (simp add: wrap360_def Let_def js_rem_small)





text \<open>On a multiple of \<open>1 / 2 ^ 44\<close> the sum in \<open>wrap360\<close> is exact.\<close>

lemma wrap360_grain:
  assumes "A = of_int G / 2 ^ 44"
  shows "\<exists>(X::int) (q::int). wrap360 A = of_int X / 2 ^ 44 \<and> 0 \<le> wrap360 A \<and> wrap360 A < 360
           \<and> A = wrap360 A + 360 * of_int q"
proof -
  define q where "q = trunc (A / 360)"
  define x where "x = js_rem A 360"
  have x: "x = A - 360 * of_int q" by (simp add: x_def q_def js_rem_def)
  have bounds: "- 360 < x" "x < 360" using js_rem_360_bounds [of A] by (simp_all add: x_def)
  have g: "x = of_int (G - 360 * 2 ^ 44 * q) / 2 ^ 44"
    unfolding x assms by (simp add: diff_divide_distrib)
  show ?thesis
  proof (cases "x < 0")
    case False
    then have "wrap360 A = x" by (simp add: wrap360_def Let_def x_def)
    with g bounds False x have "wrap360 A = of_int (G - 360 * 2 ^ 44 * q) / 2 ^ 44
        \<and> 0 \<le> wrap360 A \<and> wrap360 A < 360 \<and> A = wrap360 A + 360 * of_int q"
      by simp
    then show ?thesis by blast
  next
    case True
    have e: "x + 360 = of_int (G - 360 * 2 ^ 44 * q + 360 * 2 ^ 44) * 2 powr of_int (- 44)"
      unfolding g by (simp add: powr2_neg_numeral add_divide_distrib)
    have b: "\<bar>x + 360\<bar> < 2 powr of_int (8 + 1)" using bounds True by simp
    have "fl (x + 360) = x + 360"
      using e b by (rule fl_exact) simp_all
    moreover have "wrap360 A = fl (x + 360)"
      using True by (simp add: wrap360_def Let_def x_def)
    ultimately have w: "wrap360 A = x + 360" by simp
    have "x + 360 = of_int (G - 360 * 2 ^ 44 * q + 360 * 2 ^ 44) / 2 ^ 44"
      unfolding g by (simp add: add_divide_distrib)
    with w bounds True x have "wrap360 A = of_int (G - 360 * 2 ^ 44 * q + 360 * 2 ^ 44) / 2 ^ 44
        \<and> 0 \<le> wrap360 A \<and> wrap360 A < 360 \<and> A = wrap360 A + 360 * of_int (q - 1)"
      by simp
    then show ?thesis by blast
  qed
qed


lemma trunc_of_int_360:
  "trunc (of_int n / 360) = (if n < 0 then - ((- n) div 360) else n div 360)"
proof (cases "n < 0")
  case True
  have "\<lceil>real_of_int n / 360\<rceil> = - \<lfloor>real_of_int (- n) / real_of_int 360\<rfloor>"
    by (simp add: ceiling_def)
  also have "\<dots> = - ((- n) div 360)"
    by (simp only: floor_divide_of_int_eq)
  finally show ?thesis using True by (simp add: trunc_def)
next
  case False
  have "\<lfloor>real_of_int n / real_of_int 360\<rfloor> = n div 360"
    by (simp only: floor_divide_of_int_eq)
  then show ?thesis using False by (simp add: trunc_def)
qed

lemma js_rem_of_int:
  "js_rem (of_int n) 360 = of_int (if n < 0 then - ((- n) mod 360) else n mod 360)"
proof -
  have "n - 360 * (n div 360) = n mod 360"
    by (simp add: minus_mult_div_eq_mod)
  moreover have "n + 360 * ((- n) div 360) = - ((- n) mod 360)"
    using minus_mult_div_eq_mod [of "- n" 360] by simp
  ultimately show ?thesis
    by (simp add: js_rem_def trunc_of_int_360)
qed

text \<open>On an integer, \<open>wrap360\<close> is the remainder of the mathematical division.\<close>

lemma wrap360_of_int: "wrap360 (of_int n) = of_int (n mod 360)"
proof (cases "n < 0 \<and> (- n) mod 360 \<noteq> 0")
  case True
  let ?m = "(- n) mod 360"
  have "0 \<le> ?m" "?m < 360" by simp_all
  with True have m: "0 < ?m" "?m < 360" by linarith+
  have "n mod 360 = 360 - ?m"
    using True zmod_zminus1_eq_if [of "- n" 360] by simp
  moreover have "js_rem (of_int n) 360 = - of_int ?m"
    using True by (simp add: js_rem_of_int)
  moreover have "fl (of_int (360 - ?m)) = of_int (360 - ?m)"
    using m by (intro fl_of_int) simp
  ultimately show ?thesis using m by (simp add: wrap360_def Let_def)
next
  case False
  then consider "0 \<le> n" | "n < 0" "(- n) mod 360 = 0" by linarith
  then show ?thesis
  proof cases
    case 1
    moreover have "\<not> n mod 360 < 0" by (simp add: not_less)
    ultimately show ?thesis by (simp add: wrap360_def Let_def js_rem_of_int)
  next
    case 2
    then have "n mod 360 = 0" using zmod_zminus1_eq_if [of "- n" 360] by simp
    with 2 show ?thesis by (simp add: wrap360_def Let_def js_rem_of_int)
  qed
qed








subsection \<open>The rotation\<close>

lemma rot_of_int: "rot (ascDegOf (JNum (of_int a))) = of_int ((270 - a mod 360) mod 360)"
proof -
  have "\<bar>270 - a mod 360\<bar> < 2 ^ 53"
    using pos_mod_bound [of 360 a] pos_mod_sign [of 360 a] by simp
  then have "fl (of_int (270 - a mod 360)) = of_int (270 - a mod 360)"
    by (rule fl_of_int)
  then have "fl (270 - of_int (a mod 360)) = of_int (270 - a mod 360)"
    by simp
  then show ?thesis
    by (simp add: wrap360_of_int del: of_int_diff)
qed

lemma fl_270_near:
  assumes "\<bar>e\<bar> \<le> 1 / 2 ^ 45"
  shows "fl (270 + e) = 270"
proof -
  have "\<bar>e\<bar> < 1" using assms by (rule le_less_trans) simp
  then have b: "256 \<le> \<bar>270 + e\<bar>" "\<bar>270 + e\<bar> < 512" by simp_all
  have s: "\<bar>e * 2 ^ 44\<bar> \<le> 1 / 2"
    using assms by (simp add: abs_mult)
  have "fl (270 + e) = of_int (270 * 2 ^ 44) / 2 ^ 44"
    using b by (rule fl_near_256 [where s = "e * 2 ^ 44"]) (use s in simp_all)
  then show ?thesis by simp
qed

lemma rotation_low:
  assumes "0 \<le> A" "A \<le> 270"
  shows "wrap360 (fl (rot (ascDegOf (JNum A)) + A)) = 270"
proof -
  let ?y = "270 - A"
  have y: "0 \<le> ?y" "?y \<le> 270" using assms by simp_all
  have "0 \<le> fl ?y" using y(1) by (rule fl_nonneg)
  moreover have "fl ?y \<le> of_int 270 * 2 powr of_int 0"
    using y by (intro fl_le [where e = 8]) simp_all
  ultimately have r: "wrap360 (fl ?y) = fl ?y"
    by (intro wrap360_id) simp_all
  have "\<bar>?y\<bar> < 512" using y by simp
  then have "\<bar>fl ?y - ?y\<bar> \<le> 1 / 2 ^ 45" by (rule fl_error_512)
  then have "fl (270 + (fl ?y - ?y)) = 270" by (rule fl_270_near)
  moreover have "270 + (fl ?y - ?y) = fl ?y + A" by simp
  ultimately have "fl (fl ?y + A) = 270" by simp
  moreover have "wrap360 A = A" using assms by (intro wrap360_id) simp_all
  ultimately show ?thesis using r by (simp add: wrap360_id)
qed

lemma grain_44:
  "(of_int (c * 2 ^ 44 - M) :: real) * 2 powr of_int (- 44) = of_int c - of_int M / 2 ^ 44"
proof -
  have "(2::real) powr of_int (- 44) = 1 / 2 ^ 44"
    by (simp only: of_int_minus of_int_numeral powr2_neg_numeral)
  moreover have "(of_int (c * 2 ^ 44 - M) :: real) = of_int c * 2 ^ 44 - of_int M"
    by simp
  ultimately show ?thesis
    by (simp only: diff_divide_distrib times_divide_eq_right mult_1_right
        nonzero_mult_div_cancel_right) simp
qed

text \<open>
  The rotation of an ascendant that is a multiple of \<open>1 / 2 ^ 44\<close> is computed
  without a rounding error.
\<close>

lemma rot_grain:
  assumes "x = of_int X / 2 ^ 44" "0 \<le> x" "x \<le> 360"
  shows "rot (Some x) = (if x \<le> 270 then 270 - x else 630 - x)"
proof -
  have e1: "270 - x = of_int (270 * 2 ^ 44 - X) * 2 powr of_int (- 44)"
    using grain_44 [of 270 X] by (simp only: assms(1) of_int_numeral)
  have e2: "630 - x = of_int (630 * 2 ^ 44 - X) * 2 powr of_int (- 44)"
    using grain_44 [of 630 X] by (simp only: assms(1) of_int_numeral)
  have b1: "\<bar>270 - x\<bar> < 2 powr of_int (8 + 1)" using assms(2,3) by simp
  have f1: "fl (270 - x) = 270 - x"
    using e1 b1 by (rule fl_exact) simp_all
  show ?thesis
  proof (cases "x \<le> 270")
    case True
    then have "wrap360 (270 - x) = 270 - x"
      using assms(2) by (intro wrap360_id) simp_all
    with True f1 show ?thesis by simp
  next
    case False
    then have b2: "\<bar>630 - x\<bar> < 2 powr of_int (8 + 1)" using assms(3) by simp
    have f2: "fl (630 - x) = 630 - x"
      using e2 b2 by (rule fl_exact) simp_all
    have "wrap360 (270 - x) = fl (270 - x + 360)"
      using False assms(3) by (intro wrap360_neg) simp_all
    moreover have "270 - x + 360 = 630 - x" by simp
    ultimately have "wrap360 (270 - x) = 630 - x" using f2 by simp
    with False f1 show ?thesis by simp
  qed
qed

lemma rotation_grain:
  assumes "A = of_int G / 2 ^ 44" "\<bar>A\<bar> \<le> 2 ^ 52"
  shows "wrap360 (fl (rot (ascDegOf (JNum A)) + A)) = 270"
proof -
  obtain X q :: int where w: "wrap360 A = of_int X / 2 ^ 44" "0 \<le> wrap360 A" "wrap360 A < 360"
      "A = wrap360 A + 360 * of_int q"
    using wrap360_grain [OF assms(1)] by blast
  define c :: int where "c = (if wrap360 A \<le> 270 then 270 else 630)"
  have r: "rot (ascDegOf (JNum A)) = of_int c - wrap360 A"
    using rot_grain [OF w(1) w(2)] w(3) by (simp add: c_def)
  have "rot (ascDegOf (JNum A)) + A = of_int c - wrap360 A + A"
    by (simp only: r)
  also have "\<dots> = of_int c + 360 * of_int q"
    using w(4) by linarith
  finally have s: "rot (ascDegOf (JNum A)) + A = of_int (c + 360 * q)"
    by simp
  have "\<bar>of_int c - wrap360 A\<bar> \<le> 630"
    using w(2,3) by (simp add: c_def)
  then have "\<bar>rot (ascDegOf (JNum A))\<bar> \<le> 630"
    by (simp only: r)
  then have "\<bar>rot (ascDegOf (JNum A)) + A\<bar> < 2 ^ 53" using assms(2) by simp
  then have "\<bar>real_of_int (c + 360 * q)\<bar> < 2 ^ 53" by (simp only: s)
  then have "\<bar>c + 360 * q\<bar> < 2 ^ 53"
    by (metis of_int_abs of_int_less_numeral_power_cancel_iff)
  then have "fl (of_int (c + 360 * q)) = of_int (c + 360 * q)" by (rule fl_of_int)
  then have "wrap360 (fl (rot (ascDegOf (JNum A)) + A)) = of_int ((c + 360 * q) mod 360)"
    by (simp only: s wrap360_of_int)
  moreover have "(c + 360 * q) mod 360 = 270" by (simp add: c_def)
  ultimately show ?thesis by simp
qed

text \<open>A sum within \<open>1 / 2 ^ 45\<close> of \<open>- 90\<close> is rounded and wrapped to 270.\<close>

lemma wrap360_after_90:
  assumes "\<bar>S + 90\<bar> \<le> 1 / 2 ^ 45"
  shows "wrap360 (fl S) = 270"
proof -
  have "S + 90 \<le> 1 / 2 ^ 45" "- (S + 90) \<le> 1 / 2 ^ 45"
    using assms by (simp_all only: abs_le_iff)
  then have S: "- 90 - 1 / 2 ^ 45 \<le> S" "S \<le> - 90 + 1 / 2 ^ 45" by simp_all
  have b: "\<bar>S\<bar> < 2 powr of_int (6 + 1)" using S by simp
  have "of_int (- (90 * 2 ^ 46) - 2) * 2 powr of_int (- 46) \<le> S"
    using S(1) by (simp add: powr2_neg_numeral)
  then have "of_int (- (90 * 2 ^ 46) - 2) * 2 powr of_int (- 46) \<le> fl S"
    using b by (rule fl_ge) simp_all
  then have lo: "- 90 - 1 / 2 ^ 45 \<le> fl S" by (simp add: powr2_neg_numeral)
  have "S \<le> of_int (- (90 * 2 ^ 46) + 2) * 2 powr of_int (- 46)"
    using S(2) by (simp add: powr2_neg_numeral)
  then have "fl S \<le> of_int (- (90 * 2 ^ 46) + 2) * 2 powr of_int (- 46)"
    using b by (rule fl_le) simp_all
  then have hi: "fl S \<le> - 90 + 1 / 2 ^ 45" by (simp add: powr2_neg_numeral)
  have "wrap360 (fl S) = fl (fl S + 360)"
    using lo hi by (intro wrap360_neg) simp_all
  moreover have "fl S + 360 = 270 + (fl S + 90)" by simp
  moreover have "fl (270 + (fl S + 90)) = 270"
  proof -
    have "fl S + 90 \<le> 1 / 2 ^ 45" "- (fl S + 90) \<le> 1 / 2 ^ 45"
      using lo hi by simp_all
    then have "\<bar>fl S + 90\<bar> \<le> 1 / 2 ^ 45" by (simp only: abs_le_iff)
    then show ?thesis by (rule fl_270_near)
  qed
  ultimately show ?thesis by simp
qed

lemma rotation_neg_near:
  assumes "- 104 \<le> A" "A < 0"
  shows "wrap360 (fl (rot (ascDegOf (JNum A)) + A)) = 270"
proof -
  let ?y = "A + 360"
  have y: "256 \<le> \<bar>?y\<bar>" "\<bar>?y\<bar> < 512" using assms by simp_all
  have w: "wrap360 A = fl ?y" using assms by (intro wrap360_neg) simp_all
  have g: "fl ?y = of_int (roundEven (?y * 2 ^ 44)) / 2 ^ 44" using y by (rule fl_256)
  have err: "\<bar>fl ?y - ?y\<bar> \<le> 1 / 2 ^ 45" using y(2) by (rule fl_error_512)
  have lo: "0 \<le> fl ?y" using assms by (intro fl_nonneg) simp
  have "fl ?y \<le> of_int 360 * 2 powr of_int 0"
    using assms by (intro fl_le [where e = 8]) simp_all
  then have hi: "fl ?y \<le> 360" by simp
  have r: "rot (Some (fl ?y)) = (if fl ?y \<le> 270 then 270 - fl ?y else 630 - fl ?y)"
    using g lo hi by (rule rot_grain)
  show ?thesis
  proof (cases "fl ?y \<le> 270")
    case True
    with r have "rot (Some (fl ?y)) = 270 - fl ?y" by (simp only: if_True)
    then have "rot (ascDegOf (JNum A)) + A = 270 - fl ?y + A"
      by (simp only: ascDegOf.simps w)
    moreover have "(270 - fl ?y + A) + 90 = - (fl ?y - ?y)" by simp
    then have "\<bar>(270 - fl ?y + A) + 90\<bar> \<le> 1 / 2 ^ 45" using err by (simp only: abs_minus_cancel)
    ultimately show ?thesis by (simp only: wrap360_after_90)
  next
    case False
    with r have "rot (Some (fl ?y)) = 630 - fl ?y" by (simp only: if_False)
    then have "rot (ascDegOf (JNum A)) = 630 - fl ?y"
      by (simp only: ascDegOf.simps w)
    then have "rot (ascDegOf (JNum A)) + A = 270 + (?y - fl ?y)" by simp
    moreover have "\<bar>?y - fl ?y\<bar> \<le> 1 / 2 ^ 45"
      using err by (simp only: abs_minus_commute)
    then have "fl (270 + (?y - fl ?y)) = 270"
      by (rule fl_270_near)
    moreover have "wrap360 270 = 270" by (rule wrap360_id) simp_all
    ultimately show ?thesis by (simp only:)
  qed
qed

lemma rotation_neg_mid:
  assumes "- 256 < A" "A < - 104"
  shows "wrap360 (fl (rot (ascDegOf (JNum A)) + A)) = 270"
proof -
  let ?y = "A + 360"
  have w: "wrap360 A = fl ?y" using assms by (intro wrap360_neg) simp_all
  have e1: "\<bar>fl ?y - ?y\<bar> \<le> 1 / 2 ^ 46" using assms by (intro fl_error_256) simp
  have "of_int 104 * 2 powr of_int 0 \<le> fl ?y"
    using assms by (intro fl_ge [where e = 7]) simp_all
  then have lo: "104 \<le> fl ?y" by simp
  have "fl ?y \<le> of_int 256 * 2 powr of_int 0"
    using assms by (intro fl_le [where e = 7]) simp_all
  then have hi: "fl ?y \<le> 256" by simp
  let ?d = "270 - fl ?y"
  have e2: "\<bar>fl ?d - ?d\<bar> \<le> 1 / 2 ^ 46" using lo hi by (intro fl_error_256) simp
  have "0 \<le> fl ?d" using hi by (intro fl_nonneg) simp
  moreover have "fl ?d \<le> of_int 166 * 2 powr of_int 0"
    using lo hi by (intro fl_le [where e = 7]) simp_all
  ultimately have "wrap360 (fl ?d) = fl ?d" by (intro wrap360_id) simp_all
  then have "rot (ascDegOf (JNum A)) + A = fl ?d + A"
    by (simp only: ascDegOf.simps rot.simps w)
  moreover have "\<bar>(fl ?d + A) + 90\<bar> \<le> 1 / 2 ^ 45"
  proof -
    have "(fl ?d + A) + 90 = (fl ?d - ?d) - (fl ?y - ?y)" by simp
    then have "\<bar>(fl ?d + A) + 90\<bar> \<le> \<bar>fl ?d - ?d\<bar> + \<bar>fl ?y - ?y\<bar>"
      by (simp only: abs_triangle_ineq4)
    also have "\<dots> \<le> 1 / 2 ^ 46 + 1 / 2 ^ 46"
      using e2 e1 by (rule add_mono)
    also have "\<dots> = 1 / 2 ^ 45" by simp
    finally show ?thesis .
  qed
  ultimately show ?thesis by (simp only: wrap360_after_90)
qed

lemma fl_small_ints: "fl 100 = 100" "fl 170 = 170" "fl 270 = 270" "fl 1000 = 1000"
  using fl_of_int [of 100] fl_of_int [of 170] fl_of_int [of 270] fl_of_int [of 1000]
  by simp_all

lemma fl_1e17: "fl (10 ^ 17) = 10 ^ 17"
  by (rule fl_exact [where M = 6250000000000000 and k = 4 and e = 56]) simp_all

lemma fl_1e17_350: "fl (350 + 10 ^ 17) = 10 ^ 17 + 352"
proof -
  have "ulp (350 + 10 ^ 17) = 2 powr of_int (56 - 52)"
    by (rule ulp_eq) simp_all
  then have u: "ulp (350 + 10 ^ 17) = 16" by simp
  have "roundEven ((350 + 10 ^ 17) / 16) = 6250000000000022"
    by (simp add: roundEven_def Let_def)
  then have "fl (350 + 10 ^ 17) = 16 * of_int 6250000000000022"
    unfolding fl_def u by simp
  then show ?thesis by simp
qed


subsection \<open>The loop of planetPoints\<close>

lemma planetLoop_skip:
  "placedLon bodies name = None \<Longrightarrow>
   planetLoop bodies r (name # names) placed pts = planetLoop bodies r names placed pts"
  by (auto simp: placedLon_def Let_def split: jsval.splits if_splits)

lemma planetLoop_place:
  "placedLon bodies name = Some lon \<Longrightarrow>
   \<exists>p. planetLoop bodies r (name # names) placed pts
          = planetLoop bodies r names (Suc placed) (pts @ [p])
     \<and> pp_name p = name \<and> pp_lon p = lon \<and> onRing r placed p"
  by (auto simp: placedLon_def onRing_def polar_def Let_def split: jsval.splits if_splits)

lemma planetLoop_spec:
  "\<exists>new. planetLoop bodies r names placed pts = pts @ new
     \<and> map pp_name new = filter (\<lambda>n. placedLon bodies n \<noteq> None) names
     \<and> (\<forall>p \<in> set new. placedLon bodies (pp_name p) = Some (pp_lon p))
     \<and> (\<forall>i < length new. onRing r (placed + i) (new ! i))"
proof (induction names arbitrary: placed pts)
  case Nil
  then show ?case by simp
next
  case (Cons name names)
  show ?case
  proof (cases "placedLon bodies name")
    case None
    then show ?thesis
      using Cons [of placed pts] by (simp add: planetLoop_skip del: planetLoop.simps)
  next
    case (Some lon)
    from planetLoop_place [OF Some, of r names placed pts] obtain p where
      p: "planetLoop bodies r (name # names) placed pts
            = planetLoop bodies r names (Suc placed) (pts @ [p])"
         "pp_name p = name" "pp_lon p = lon" "onRing r placed p"
      by auto
    from Cons [of "Suc placed" "pts @ [p]"] obtain new where
      new: "planetLoop bodies r names (Suc placed) (pts @ [p]) = (pts @ [p]) @ new"
        "map pp_name new = filter (\<lambda>n. placedLon bodies n \<noteq> None) names"
        "\<forall>p \<in> set new. placedLon bodies (pp_name p) = Some (pp_lon p)"
        "\<forall>i < length new. onRing r (Suc placed + i) (new ! i)"
      by blast
    have "\<forall>i < length (p # new). onRing r (placed + i) ((p # new) ! i)"
    proof (intro allI impI)
      fix i assume "i < length (p # new)"
      then show "onRing r (placed + i) ((p # new) ! i)"
        using p(4) new(4) by (cases i) auto
    qed
    then show ?thesis
      using p new Some by (intro exI [of _ "p # new"]) (simp del: planetLoop.simps)
  qed
qed

lemma planetPoints_spec:
  "map pp_name (planetPoints bodies r) = filter (\<lambda>n. placedLon bodies n \<noteq> None) BODY_ORDER
   \<and> (\<forall>p \<in> set (planetPoints bodies r). placedLon bodies (pp_name p) = Some (pp_lon p))
   \<and> (\<forall>i < length (planetPoints bodies r). onRing r i (planetPoints bodies r ! i))"
proof (cases "truthy bodies")
  case True
  then show ?thesis
    using planetLoop_spec [of bodies r BODY_ORDER 0 "[]"] unfolding planetPoints_def by simp
next
  case False
  then have "optGet bodies n = JUndefined" for n
    by (cases bodies) (simp_all add: optGet_def indexed_def)
  then have "placedLon bodies n = None" for n
    by (simp add: placedLon_def)
  with False show ?thesis
    by (simp add: planetPoints_def)
qed

subsection \<open>The loop of aspectLines\<close>

lemma aspectLoop_drop:
  "\<not> rowPasses a \<Longrightarrow> aspectLoop P r (a # as) seen out = aspectLoop P r as seen out"
  by (auto simp: rowPasses_def)

lemma aspectLoop_seen:
  "rowPasses a \<Longrightarrow> keyRaw a \<in> seen \<Longrightarrow>
   aspectLoop P r (a # as) seen out = aspectLoop P r as seen out"
  by (auto simp: rowPasses_def)

lemma aspectLoop_unresolved:
  "rowPasses a \<Longrightarrow> keyRaw a \<notin> seen \<Longrightarrow> chordOf P r a = None \<Longrightarrow>
   aspectLoop P r (a # as) seen out = aspectLoop P r as (insert (keyRaw a) seen) out"
  by (auto simp: rowPasses_def chordOf_def split: option.splits)

lemma aspectLoop_push:
  "rowPasses a \<Longrightarrow> keyRaw a \<notin> seen \<Longrightarrow> chordOf P r a = Some c \<Longrightarrow>
   aspectLoop P r (a # as) seen out =
     (if length (out @ [c]) \<ge> maxLines then out @ [c]
      else aspectLoop P r as (insert (keyRaw a) seen) (out @ [c]))"
  by (auto simp: rowPasses_def chordOf_def Let_def split: option.splits)

text \<open>
  The loop is the composition of its stages: the field and orb checks, the first row of
  each key, the lookup of the two names, the cap.
\<close>

lemma aspectLoop_pipeline:
  "length out < maxLines \<Longrightarrow>
   aspectLoop P r rows seen out =
     take maxLines
       (out @ List.map_filter (chordOf P r) (firstByKey seen (filter rowPasses rows)))"
proof (induction rows arbitrary: seen out)
  case Nil
  then show ?case by (simp add: map_filter_simps)
next
  case (Cons a as)
  show ?case
  proof (cases "rowPasses a")
    case False
    then show ?thesis using Cons by (simp add: aspectLoop_drop del: aspectLoop.simps)
  next
    case pass: True
    show ?thesis
    proof (cases "keyRaw a \<in> seen")
      case True
      then show ?thesis using Cons pass by (simp add: aspectLoop_seen del: aspectLoop.simps)
    next
      case new: False
      show ?thesis
      proof (cases "chordOf P r a")
        case None
        then show ?thesis using Cons pass new
          by (simp add: aspectLoop_unresolved map_filter_simps del: aspectLoop.simps)
      next
        case (Some c)
        show ?thesis
        proof (cases "length (out @ [c]) \<ge> maxLines")
          case True
          with Cons.prems have "maxLines - length out = Suc 0" by simp
          then show ?thesis using pass new Some True
            by (simp add: aspectLoop_push map_filter_simps del: aspectLoop.simps)
        next
          case False
          then have "length (out @ [c]) < maxLines" by simp
          from Cons.IH [OF this] show ?thesis using pass new Some False
            by (simp add: aspectLoop_push map_filter_simps del: aspectLoop.simps)
        qed
      qed
    qed
  qed
qed

lemma aspectLines_pipeline:
  "aspectLines P r rows =
     take maxLines (List.map_filter (chordOf P r) (firstByKey {} (filter rowPasses rows)))"
  unfolding aspectLines_def by (subst aspectLoop_pipeline) (simp_all add: maxLines_def)

lemma firstByKey_append:
  "firstByKey seen (us @ vs) = firstByKey seen us @ firstByKey (seen \<union> keyRaw ` set us) vs"
  by (induction us arbitrary: seen) (auto simp: insert_absorb)

lemma firstByKey_subset: "set (firstByKey seen rows) \<subseteq> set rows"
  by (induction rows arbitrary: seen) auto

lemma firstByKey_fresh: "a \<in> set (firstByKey seen rows) \<Longrightarrow> keyRaw a \<notin> seen"
  by (induction rows arbitrary: seen) (auto split: if_splits)

lemma firstByKey_distinct: "distinct (map keyRaw (firstByKey seen rows))"
  by (induction rows arbitrary: seen) (auto dest: firstByKey_fresh)

lemma keyRaw_sym:
  "ar_p1 b = ar_p2 a \<Longrightarrow> ar_p2 b = ar_p1 a \<Longrightarrow> ar_aspect b = ar_aspect a
   \<Longrightarrow> keyRaw b = keyRaw a"
  by (auto simp: keyRaw_def Let_def)

subsection \<open>The map of the placed points\<close>

lemma pointByName_snoc:
  "pointByName (pts @ [p]) = (pointByName pts)(pp_name p \<mapsto> \<lparr>np_x = pp_x p, np_y = pp_y p, np_lon = pp_lon p\<rparr>)"
  by (simp add: pointByName_def)

lemma pointByName_None: "name \<notin> pp_name ` set pts \<Longrightarrow> pointByName pts name = None"
  by (induction pts rule: rev_induct) (auto simp: pointByName_snoc, simp add: pointByName_def)

lemma pointByName_Some:
  "pointByName pts name = Some q \<Longrightarrow>
   \<exists>p \<in> set pts. pp_name p = name \<and> q = \<lparr>np_x = pp_x p, np_y = pp_y p, np_lon = pp_lon p\<rparr>"
proof (induction pts rule: rev_induct)
  case Nil
  then show ?case by (simp add: pointByName_def)
next
  case (snoc p pts)
  then show ?case by (auto simp: pointByName_snoc split: if_splits)
qed

lemma planetPoints_names: "pp_name ` set (planetPoints bodies r) \<subseteq> set BODY_ORDER"
proof -
  have "set (map pp_name (planetPoints bodies r)) \<subseteq> set BODY_ORDER"
    using planetPoints_spec [of bodies r] by auto
  then show ?thesis by simp
qed

subsection \<open>Where a chord comes from\<close>

lemma in_map_filter: "y \<in> set (List.map_filter f xs) \<longleftrightarrow> (\<exists>x \<in> set xs. f x = Some y)"
  by (induction xs) (auto simp: map_filter_simps split: option.splits)

lemma chord_origin:
  assumes "c \<in> set (aspectLines P r rows)"
  shows "\<exists>a \<in> set rows. rowPasses a \<and> chordOf P r a = Some c"
proof -
  from assms have "c \<in> set (List.map_filter (chordOf P r) (firstByKey {} (filter rowPasses rows)))"
    unfolding aspectLines_pipeline by (rule in_set_takeD)
  then obtain a where "a \<in> set (firstByKey {} (filter rowPasses rows))" "chordOf P r a = Some c"
    by (auto simp: in_map_filter)
  moreover have "set (firstByKey {} (filter rowPasses rows)) \<subseteq> set (filter rowPasses rows)"
    by (rule firstByKey_subset)
  ultimately show ?thesis by auto
qed

lemma chordOf_SomeD:
  "chordOf P r a = Some c \<Longrightarrow>
   \<exists>q1 q2. P (fieldStr (ar_p1 a)) = Some q1 \<and> P (fieldStr (ar_p2 a)) = Some q2
     \<and> \<lparr>xy_x = ch_x1 c, xy_y = ch_y1 c\<rparr> = polar cx cy R_ASPECT_DRAW (wrap360 (np_lon q1 + r))
     \<and> \<lparr>xy_x = ch_x2 c, xy_y = ch_y2 c\<rparr> = polar cx cy R_ASPECT_DRAW (wrap360 (np_lon q2 + r))
     \<and> ch_key c = keyRaw a"
  by (auto simp: chordOf_def polar_def Let_def split: option.splits)

lemma aspectLines_keys_distinct: "distinct (map ch_key (aspectLines P r rows))"
proof -
  have key: "\<And>a c. chordOf P r a = Some c \<Longrightarrow> ch_key c = keyRaw a"
    by (auto simp: chordOf_def split: option.splits)
  have "distinct (map ch_key (List.map_filter (chordOf P r) rs))" if "distinct (map keyRaw rs)" for rs
    using that
  proof (induction rs)
    case Nil
    then show ?case by (simp add: map_filter_simps)
  next
    case (Cons a rs)
    show ?case
    proof (cases "chordOf P r a")
      case None
      then show ?thesis using Cons by (simp add: map_filter_simps)
    next
      case (Some c)
      have "ch_key c \<notin> ch_key ` set (List.map_filter (chordOf P r) rs)"
      proof
        assume "ch_key c \<in> ch_key ` set (List.map_filter (chordOf P r) rs)"
        then obtain d where "d \<in> set (List.map_filter (chordOf P r) rs)" "ch_key d = ch_key c"
          by auto
        then obtain b where "b \<in> set rs" "chordOf P r b = Some d" "ch_key d = ch_key c"
          by (auto simp: in_map_filter)
        then have "b \<in> set rs" "keyRaw b = ch_key c"
          using key by auto
        with Cons.prems key [OF Some] show False by (auto simp: image_iff)
      qed
      then show ?thesis using Cons Some by (simp add: map_filter_simps)
    qed
  qed
  from this [OF firstByKey_distinct] show ?thesis
    unfolding aspectLines_pipeline by (simp add: take_map [symmetric] distinct_take del: take_map)
qed

lemma map_filter_app: "List.map_filter f (xs @ ys) = List.map_filter f xs @ List.map_filter f ys"
  by (simp add: map_filter_def)

lemma aspectLines_snoc:
  assumes "rowPasses a" "keyRaw a \<notin> keyRaw ` set (filter rowPasses xs)"
    "chordOf P r a = Some c" "length (aspectLines P r xs) < maxLines"
  shows "aspectLines P r (xs @ [a]) = aspectLines P r xs @ [c]"
proof -
  let ?L = "List.map_filter (chordOf P r) (firstByKey {} (filter rowPasses xs))"
  have "firstByKey {} (filter rowPasses (xs @ [a])) = firstByKey {} (filter rowPasses xs) @ [a]"
    using assms(1,2) by (simp add: firstByKey_append)
  then have *: "aspectLines P r (xs @ [a]) = take maxLines (?L @ [c])"
    using assms(3) by (simp add: aspectLines_pipeline map_filter_app map_filter_simps)
  from assms(4) have "length ?L < maxLines"
    by (simp add: aspectLines_pipeline)
  then show ?thesis using * by (simp add: aspectLines_pipeline)
qed

lemma aspectLines_single:
  "rowPasses a \<Longrightarrow> chordOf P r a = Some c \<Longrightarrow> aspectLines P r [a] = [c]"
  by (simp add: aspectLines_pipeline map_filter_simps maxLines_def)

lemma aspectLines_dropped_first:
  "\<not> rowPasses a \<Longrightarrow> aspectLines P r (a # rows) = aspectLines P r rows"
  by (simp add: aspectLines_pipeline)



subsection \<open>The example inputs evaluated\<close>

lemma wrap360_num [simp]: "wrap360 90 = 90" "wrap360 270 = 270" "wrap360 0 = 0"
  by (simp_all add: wrap360_id)

lemma planetPoints_SunMoon: "planetPoints bodiesSunMoon 0 =
   [\<lparr>pp_name = ''Sun'', pp_lon = 90, pp_x = 555, pp_y = 310, pp_label = [0x2609], pp_degMin = (0, 0)\<rparr>,
    \<lparr>pp_name = ''Moon'', pp_lon = 270, pp_x = 77, pp_y = 310, pp_label = [0x263D], pp_degMin = (0, 0)\<rparr>]"
  by (simp add: planetPoints_def BODY_ORDER_def bodiesSunMoon_def optGet_def Let_def
      polar_def astroDegToSvgRad_def layout_defs glyphOf_def BODY_GLYPHS_def lonToSignDeg_def degToDegMin_def)

lemma pointsSunMoon_Sun: "pointsSunMoon ''Sun'' = Some \<lparr>np_x = 555, np_y = 310, np_lon = 90\<rparr>"
  by (simp add: pointsSunMoon_def planetPoints_SunMoon pointByName_def)

lemma pointsSunMoon_Moon: "pointsSunMoon ''Moon'' = Some \<lparr>np_x = 77, np_y = 310, np_lon = 270\<rparr>"
  by (simp add: pointsSunMoon_def planetPoints_SunMoon pointByName_def)

lemma chord_SunMoon:
  "chordOf pointsSunMoon 0 (mkRow ''Sun'' ''Moon'' ''square'' v) =
     Some \<lparr>ch_key = ''Moon|Sun|square'', ch_x1 = 425, ch_y1 = 310, ch_x2 = 195, ch_y2 = 310,
           ch_stroke = ''#9f7cff'', ch_width = 2.8, ch_opacity = 0.87\<rparr>"
  by (simp add: chordOf_def mkRow_def pointsSunMoon_Sun pointsSunMoon_Moon keyRaw_def
      polar_def astroDegToSvgRad_def layout_defs aspectStyle_def toLowerCase_def lowerChar_def Let_def)

lemma chord_SunMoon_trine:
  "chordOf pointsSunMoon 0 (mkRow ''Sun'' ''Moon'' ''trine'' v) =
     Some \<lparr>ch_key = ''Moon|Sun|trine'', ch_x1 = 425, ch_y1 = 310, ch_x2 = 195, ch_y2 = 310,
           ch_stroke = ''#ff86b8'', ch_width = 2.8, ch_opacity = 0.87\<rparr>"
  by (simp add: chordOf_def mkRow_def pointsSunMoon_Sun pointsSunMoon_Moon keyRaw_def
      polar_def astroDegToSvgRad_def layout_defs aspectStyle_def toLowerCase_def lowerChar_def Let_def)

lemma chord_MoonSun_trine:
  "chordOf pointsSunMoon 0 (mkRow ''Moon'' ''Sun'' ''trine'' v) =
     Some \<lparr>ch_key = ''Moon|Sun|trine'', ch_x1 = 195, ch_y1 = 310, ch_x2 = 425, ch_y2 = 310,
           ch_stroke = ''#ff86b8'', ch_width = 2.8, ch_opacity = 0.87\<rparr>"
  by (simp add: chordOf_def mkRow_def pointsSunMoon_Sun pointsSunMoon_Moon keyRaw_def
      polar_def astroDegToSvgRad_def layout_defs aspectStyle_def toLowerCase_def lowerChar_def Let_def)

subsection \<open>The memo cells stay consistent\<close>

lemma useMemo_value: "cellOf f cell \<Longrightarrow> useMemo cell deps f = (v, k) \<Longrightarrow> v = f deps \<and> cellOf f k"
  by (auto simp: useMemo_def cellOf_def split: option.splits if_splits)

lemma useMemoE_fail:
  "cellOfE f cell \<Longrightarrow> useMemoE cell deps f = Inl e \<Longrightarrow> f deps = Inl e"
  by (auto simp: useMemoE_def cellOfE_def Let_def split: option.splits if_splits sum.splits)

lemma useMemoE_value:
  "cellOfE f cell \<Longrightarrow> useMemoE cell deps f = Inr (v, k) \<Longrightarrow> f deps = Inr v \<and> cellOfE f k"
  by (auto simp: useMemoE_def cellOfE_def Let_def split: option.splits if_splits sum.splits)

lemma consistent_mount: "consistent sn mount"
  by (simp add: consistent_def mount_def cellOf_def cellOfE_def)

lemma render_consistent:
  assumes "consistent sn cs"
  shows "snd (render sn cs chart) = ChartWheel sn chart \<and> consistent sn (fst (render sn cs chart))"
proof (cases "useMemoE (c_normalized cs) chart (normalize sn)")
  case (Inl e)
  with assms have "normalize sn chart = Inl e"
    by (auto simp: consistent_def dest: useMemoE_fail)
  with Inl show ?thesis
    by (simp add: render_def ChartWheel_def consistent_mount)
next
  case (Inr nk)
  obtain n k1 where nk: "nk = (n, k1)" by (cases nk)
  with Inr assms have n: "normalize sn chart = Inr n" "cellOfE (normalize sn) k1"
    by (auto simp: consistent_def dest: useMemoE_value)
  obtain r k2 where r: "useMemo (c_rot cs) (n_ascDeg n) rot = (r, k2)" by fastforce
  with assms have r': "r = rot (n_ascDeg n)" "cellOf rot k2"
    by (auto simp: consistent_def dest: useMemo_value)
  obtain sl k3 where sl: "useMemo (c_signLines cs) r signLines = (sl, k3)" by fastforce
  with assms have sl': "sl = signLines r" "cellOf signLines k3"
    by (auto simp: consistent_def dest: useMemo_value)
  obtain sb k4 where sb: "useMemo (c_signLabels cs) r signLabels = (sb, k4)" by fastforce
  with assms have sb': "sb = signLabels r" "cellOf signLabels k4"
    by (auto simp: consistent_def dest: useMemo_value)
  obtain pts k5 where pts: "useMemo (c_planetPoints cs) (n_bodies n, r)
      (\<lambda>(bodies, r). planetPoints bodies r) = (pts, k5)" by fastforce
  with assms have pts': "pts = planetPoints (n_bodies n) r"
      "cellOf (\<lambda>(bodies, r). planetPoints bodies r) k5"
    by (auto simp: consistent_def dest: useMemo_value)
  obtain P k6 where P: "useMemo (c_pointByName cs) pts pointByName = (P, k6)" by fastforce
  with assms have P': "P = pointByName pts" "cellOf pointByName k6"
    by (auto simp: consistent_def dest: useMemo_value)
  show ?thesis
  proof (cases "useMemoE (c_aspectLines cs) (n_aspects n, P, r)
                     (\<lambda>(aspects, P, r). aspectLinesOf aspects P r)")
    case (Inl e)
    with assms have "aspectLinesOf (n_aspects n) P r = Inl e"
      by (auto simp: consistent_def dest: useMemoE_fail)
    with Inl Inr nk n r r' sl sb pts pts' P P' show ?thesis
      by (simp add: render_def ChartWheel_def consistent_mount Let_def)
  next
    case (Inr ck)
    obtain chords k7 where ck: "ck = (chords, k7)" by (cases ck)
    with Inr assms have c: "aspectLinesOf (n_aspects n) P r = Inr chords"
        "cellOfE (\<lambda>(aspects, P, r). aspectLinesOf aspects P r) k7"
      by (auto simp: consistent_def dest: useMemoE_value)
    from \<open>useMemoE (c_normalized cs) chart (normalize sn) = Inr nk\<close> Inr ck nk n r r' sl sl' sb sb' pts pts' P P' c
    show ?thesis
      by (simp add: render_def ChartWheel_def consistent_def Let_def)
  qed
qed

lemma after_consistent: "consistent sn (after sn history)"
proof (induction history rule: rev_induct)
  case Nil
  then show ?case by (simp add: after_def consistent_mount)
next
  case (snoc chart history)
  then show ?case using render_consistent [of sn "after sn history" chart]
    by (simp add: after_def)
qed

section \<open>The claims\<close>

text \<open>
  C1, as the code has it. A chord does not end on the glyph anchors of its two bodies.
  Each end lies at the draw angle of its body, \<open>wrap360 (lon + rot)\<close>, on the inner
  circle of radius \<open>R_ASPECT_DRAW = 115\<close>; the glyph anchor of the body lies at the same
  angle on its ring of radius 245, 233 or 221. Both groups are drawn with the same
  translation.
\<close>

theorem chord_endpoints:
  "c \<in> set (aspectLines (pointByName (planetPoints bodies r)) r rows) \<longrightarrow>
     (\<exists>a \<in> set rows. \<exists>i < length (planetPoints bodies r). \<exists>j < length (planetPoints bodies r).
        ar_p1 a = Some (pp_name (planetPoints bodies r ! i))
      \<and> ar_p2 a = Some (pp_name (planetPoints bodies r ! j))
      \<and> chordScreen1 c = polar cx cy 115 (wrap360 (pp_lon (planetPoints bodies r ! i) + r))
      \<and> planetScreen (planetPoints bodies r ! i)
          = polar cx cy (245 - of_nat (i mod 3) * 12)
              (wrap360 (pp_lon (planetPoints bodies r ! i) + r))
      \<and> chordScreen2 c = polar cx cy 115 (wrap360 (pp_lon (planetPoints bodies r ! j) + r))
      \<and> planetScreen (planetPoints bodies r ! j)
          = polar cx cy (245 - of_nat (j mod 3) * 12)
              (wrap360 (pp_lon (planetPoints bodies r ! j) + r)))"
proof
  let ?pts = "planetPoints bodies r"
  let ?P = "pointByName ?pts"
  assume "c \<in> set (aspectLines ?P r rows)"
  from chord_origin [OF this] obtain a where
    a: "a \<in> set rows" "rowPasses a" "chordOf ?P r a = Some c"
    by blast
  from chordOf_SomeD [OF a(3)] obtain q1 q2 where
    q: "?P (fieldStr (ar_p1 a)) = Some q1" "?P (fieldStr (ar_p2 a)) = Some q2"
      "\<lparr>xy_x = ch_x1 c, xy_y = ch_y1 c\<rparr> = polar cx cy R_ASPECT_DRAW (wrap360 (np_lon q1 + r))"
      "\<lparr>xy_x = ch_x2 c, xy_y = ch_y2 c\<rparr> = polar cx cy R_ASPECT_DRAW (wrap360 (np_lon q2 + r))"
    by blast
  from a(2) have names: "ar_p1 a = Some (fieldStr (ar_p1 a))" "ar_p2 a = Some (fieldStr (ar_p2 a))"
    by (cases "ar_p1 a"; cases "ar_p2 a"; simp add: rowPasses_def)+
  from pointByName_Some [OF q(1)] obtain i where
    i: "i < length ?pts" "pp_name (?pts ! i) = fieldStr (ar_p1 a)" "np_lon q1 = pp_lon (?pts ! i)"
    by (auto simp: in_set_conv_nth)
  from pointByName_Some [OF q(2)] obtain j where
    j: "j < length ?pts" "pp_name (?pts ! j) = fieldStr (ar_p2 a)" "np_lon q2 = pp_lon (?pts ! j)"
    by (auto simp: in_set_conv_nth)
  have ring: "k < length ?pts \<Longrightarrow> planetScreen (?pts ! k)
      = polar cx cy (245 - of_nat (k mod 3) * 12) (wrap360 (pp_lon (?pts ! k) + r))" for k
    using planetPoints_spec [of bodies r]
    by (simp add: onRing_def planetScreen_def R_PLANET_def PLANET_DX_def PLANET_DY_def)
  have c1: "chordScreen1 c = polar cx cy 115 (wrap360 (pp_lon (?pts ! i) + r))"
    using q(3) i(3) by (simp add: chordScreen1_def layout_defs)
  have c2: "chordScreen2 c = polar cx cy 115 (wrap360 (pp_lon (?pts ! j) + r))"
    using q(4) j(3) by (simp add: chordScreen2_def layout_defs)
  show "\<exists>a \<in> set rows. \<exists>i < length ?pts. \<exists>j < length ?pts.
        ar_p1 a = Some (pp_name (?pts ! i))
      \<and> ar_p2 a = Some (pp_name (?pts ! j))
      \<and> chordScreen1 c = polar cx cy 115 (wrap360 (pp_lon (?pts ! i) + r))
      \<and> planetScreen (?pts ! i)
          = polar cx cy (245 - of_nat (i mod 3) * 12) (wrap360 (pp_lon (?pts ! i) + r))
      \<and> chordScreen2 c = polar cx cy 115 (wrap360 (pp_lon (?pts ! j) + r))
      \<and> planetScreen (?pts ! j)
          = polar cx cy (245 - of_nat (j mod 3) * 12) (wrap360 (pp_lon (?pts ! j) + r))"
    using a(1) names i j ring [OF i(1)] ring [OF j(1)] c1 c2 by metis
qed

theorem chord_endpoints_witness:
  "\<lparr>ch_key = ''Moon|Sun|square'', ch_x1 = 425, ch_y1 = 310, ch_x2 = 195, ch_y2 = 310,
     ch_stroke = ''#9f7cff'', ch_width = 2.8, ch_opacity = 0.87\<rparr>
     \<in> set (aspectLines (pointByName (planetPoints bodiesSunMoon 0)) 0
              [mkRow ''Sun'' ''Moon'' ''square'' 4])
   \<and> (\<exists>a \<in> set [mkRow ''Sun'' ''Moon'' ''square'' 4].
       \<exists>i < length (planetPoints bodiesSunMoon 0). \<exists>j < length (planetPoints bodiesSunMoon 0).
        ar_p1 a = Some (pp_name (planetPoints bodiesSunMoon 0 ! i))
      \<and> ar_p2 a = Some (pp_name (planetPoints bodiesSunMoon 0 ! j))
      \<and> chordScreen1
           \<lparr>ch_key = ''Moon|Sun|square'', ch_x1 = 425, ch_y1 = 310, ch_x2 = 195, ch_y2 = 310,
             ch_stroke = ''#9f7cff'', ch_width = 2.8, ch_opacity = 0.87\<rparr>
          = polar cx cy 115 (wrap360 (pp_lon (planetPoints bodiesSunMoon 0 ! i) + 0))
      \<and> planetScreen (planetPoints bodiesSunMoon 0 ! i)
          = polar cx cy (245 - of_nat (i mod 3) * 12)
              (wrap360 (pp_lon (planetPoints bodiesSunMoon 0 ! i) + 0))
      \<and> chordScreen2
           \<lparr>ch_key = ''Moon|Sun|square'', ch_x1 = 425, ch_y1 = 310, ch_x2 = 195, ch_y2 = 310,
             ch_stroke = ''#9f7cff'', ch_width = 2.8, ch_opacity = 0.87\<rparr>
          = polar cx cy 115 (wrap360 (pp_lon (planetPoints bodiesSunMoon 0 ! j) + 0))
      \<and> planetScreen (planetPoints bodiesSunMoon 0 ! j)
          = polar cx cy (245 - of_nat (j mod 3) * 12)
              (wrap360 (pp_lon (planetPoints bodiesSunMoon 0 ! j) + 0)))"
proof -
  have "aspectLines pointsSunMoon 0 [mkRow ''Sun'' ''Moon'' ''square'' 4] =
     [\<lparr>ch_key = ''Moon|Sun|square'', ch_x1 = 425, ch_y1 = 310, ch_x2 = 195, ch_y2 = 310,
       ch_stroke = ''#9f7cff'', ch_width = 2.8, ch_opacity = 0.87\<rparr>]"
    by (rule aspectLines_single)
       (simp_all add: chord_SunMoon, simp add: rowPasses_def mkRow_def maxOrb_def)
  then have mem: "\<lparr>ch_key = ''Moon|Sun|square'', ch_x1 = 425, ch_y1 = 310, ch_x2 = 195,
      ch_y2 = 310, ch_stroke = ''#9f7cff'', ch_width = 2.8, ch_opacity = 0.87\<rparr>
     \<in> set (aspectLines (pointByName (planetPoints bodiesSunMoon 0)) 0
              [mkRow ''Sun'' ''Moon'' ''square'' 4])"
    by (simp add: pointsSunMoon_def)
  from mem chord_endpoints [rule_format, OF mem] show ?thesis
    by (rule conjI)
qed

text \<open>
  The claim as stated fails for the Sun and the Moon both at longitude 90 with no
  ascendant: the glyphs are anchored at \<open>(555, 310)\<close> and \<open>(543, 310)\<close>, both ends
  of the chord of their conjunction are at \<open>(425, 310)\<close>.
\<close>

theorem chord_on_glyph_counterexample:
  "planetPoints bodiesConjunct 0 =
     [\<lparr>pp_name = ''Sun'', pp_lon = 90, pp_x = 555, pp_y = 310, pp_label = [0x2609],
       pp_degMin = (0, 0)\<rparr>,
      \<lparr>pp_name = ''Moon'', pp_lon = 90, pp_x = 543, pp_y = 310, pp_label = [0x263D],
       pp_degMin = (0, 0)\<rparr>]
   \<and> aspectLines (pointByName (planetPoints bodiesConjunct 0)) 0
       [mkRow ''Sun'' ''Moon'' ''conjunction'' 1] =
     [\<lparr>ch_key = ''Moon|Sun|conjunction'', ch_x1 = 425, ch_y1 = 310, ch_x2 = 425, ch_y2 = 310,
       ch_stroke = ''#d8c8ff'', ch_width = 2.4, ch_opacity = 0.55\<rparr>]
   \<and> planetScreen (planetPoints bodiesConjunct 0 ! 0) = \<lparr>xy_x = 555, xy_y = 310\<rparr>
   \<and> planetScreen (planetPoints bodiesConjunct 0 ! 1) = \<lparr>xy_x = 543, xy_y = 310\<rparr>
   \<and> chordScreen1 (aspectLines (pointByName (planetPoints bodiesConjunct 0)) 0
       [mkRow ''Sun'' ''Moon'' ''conjunction'' 1] ! 0) = \<lparr>xy_x = 425, xy_y = 310\<rparr>
   \<and> chordScreen2 (aspectLines (pointByName (planetPoints bodiesConjunct 0)) 0
       [mkRow ''Sun'' ''Moon'' ''conjunction'' 1] ! 0) = \<lparr>xy_x = 425, xy_y = 310\<rparr>"
proof -
  have pts: "planetPoints bodiesConjunct 0 =
     [\<lparr>pp_name = ''Sun'', pp_lon = 90, pp_x = 555, pp_y = 310, pp_label = [0x2609],
       pp_degMin = (0, 0)\<rparr>,
      \<lparr>pp_name = ''Moon'', pp_lon = 90, pp_x = 543, pp_y = 310, pp_label = [0x263D],
       pp_degMin = (0, 0)\<rparr>]"
    by (simp add: planetPoints_def BODY_ORDER_def bodiesConjunct_def optGet_def Let_def
        polar_def astroDegToSvgRad_def layout_defs glyphOf_def BODY_GLYPHS_def
        lonToSignDeg_def degToDegMin_def)
  have chord: "chordOf (pointByName (planetPoints bodiesConjunct 0)) 0
       (mkRow ''Sun'' ''Moon'' ''conjunction'' 1) =
     Some \<lparr>ch_key = ''Moon|Sun|conjunction'', ch_x1 = 425, ch_y1 = 310, ch_x2 = 425,
           ch_y2 = 310, ch_stroke = ''#d8c8ff'', ch_width = 2.4, ch_opacity = 0.55\<rparr>"
    by (simp add: pts pointByName_def chordOf_def mkRow_def keyRaw_def polar_def
        astroDegToSvgRad_def layout_defs aspectStyle_def toLowerCase_def lowerChar_def Let_def)
  have "aspectLines (pointByName (planetPoints bodiesConjunct 0)) 0
       [mkRow ''Sun'' ''Moon'' ''conjunction'' 1] =
     [\<lparr>ch_key = ''Moon|Sun|conjunction'', ch_x1 = 425, ch_y1 = 310, ch_x2 = 425, ch_y2 = 310,
       ch_stroke = ''#d8c8ff'', ch_width = 2.4, ch_opacity = 0.55\<rparr>]"
    by (rule aspectLines_single [OF _ chord]) (simp add: rowPasses_def mkRow_def maxOrb_def)
  then show ?thesis
    by (simp add: pts planetScreen_def chordScreen1_def chordScreen2_def layout_defs)
qed

text \<open>
  C2, as the code has it. The ascendant is the first candidate, in the order houses
  ascendant, points \<open>Asc\<close>, points \<open>ASC\<close>, that is neither \<open>null\<close> nor
  \<open>undefined\<close>; it is used when it is a number and the chart has no ascendant
  otherwise. When every candidate is missing, \<open>null\<close> or a number, this is the
  first numeric candidate.
\<close>

theorem asc_first_defined:
  "ascDegOf (ascOf chart) = ascDegOf (firstDefined (ascCandidates chart))
   \<and> ((\<forall>v \<in> set (ascCandidates chart). nullish v \<or> isNum v) \<longrightarrow>
        ascDegOf (ascOf chart) = map_option wrap360 (firstNumeric (ascCandidates chart)))"
proof -
  have 1: "ascOf chart = firstDefined (ascCandidates chart)"
    by (simp add: ascOf_def ascCandidates_def coalesce_def)
  have 2: "ascDegOf (firstDefined vs) = map_option wrap360 (firstNumeric vs)"
    if "\<forall>v \<in> set vs. nullish v \<or> isNum v" for vs
    using that
  proof (induction vs)
    case Nil
    then show ?case by simp
  next
    case (Cons v vs)
    then show ?case by (cases v) auto
  qed
  from 1 2 show ?thesis by simp
qed

theorem asc_first_defined_witness:
  "ascCandidates chartAscNull = [JNull, JUndefined, JNum 100]
   \<and> firstNumeric (ascCandidates chartAscNull) = Some 100
   \<and> ascDegOf (ascOf chartAscNull) = Some 100"
proof -
  have c: "ascCandidates chartAscNull = [JNull, JUndefined, JNum 100]"
    by (simp add: ascCandidates_def chartAscNull_def optGet_def)
  then have every: "\<forall>v \<in> set (ascCandidates chartAscNull). nullish v \<or> isNum v"
    by simp
  have w: "wrap360 100 = 100"
    by (simp add: wrap360_id)
  from asc_first_defined [of chartAscNull, THEN conjunct2, THEN mp, OF every] c w
  show ?thesis by simp
qed

text \<open>
  The claim as stated fails when the houses ascendant is the text \<open>100\<close> and the
  points table holds the number 100: the first numeric candidate is 100, the code finds no
  ascendant and does not rotate.
\<close>

theorem asc_first_numeric_counterexample:
  "ascCandidates chartAscText = [JStr ''100'', JNum 100, JUndefined]
   \<and> firstNumeric (ascCandidates chartAscText) = Some 100
   \<and> ascDegOf (ascOf chartAscText) = None
   \<and> rot (ascDegOf (ascOf chartAscText)) = 0"
by (simp add: ascCandidates_def chartAscText_def optGet_def ascOf_def coalesce_def)




text \<open>
  C4, as the code has it. For an ascendant \<open>A\<close> that is a double of magnitude at most
  \<open>2 ^ 52\<close>, the rotation computed from it sends the ascendant to the canonical screen
  angle: the wrap of the sum of the rotation and \<open>A\<close> is 270. The sum is a sum of
  doubles and is rounded.
\<close>

theorem rotation_consistency:
  "fl A = A \<and> \<bar>A\<bar> \<le> 2 ^ 52 \<longrightarrow> wrap360 (fl (rot (ascDegOf (JNum A)) + A)) = 270"
proof
  assume A: "fl A = A \<and> \<bar>A\<bar> \<le> 2 ^ 52"
  consider "256 \<le> \<bar>A\<bar>" | "0 \<le> A" "A < 256" | "- 104 \<le> A" "A < 0" | "- 256 < A" "A < - 104"
    by linarith
  then show "wrap360 (fl (rot (ascDegOf (JNum A)) + A)) = 270"
  proof cases
    case 1
    with A obtain G :: int where G: "A = of_int G / 2 ^ 44"
      using double_grain_44 by blast
    from A have "\<bar>A\<bar> \<le> 2 ^ 52" ..
    with G show ?thesis by (rule rotation_grain)
  next
    case 2
    then show ?thesis by (intro rotation_low) simp_all
  next
    case 3
    then show ?thesis by (rule rotation_neg_near)
  next
    case 4
    then show ?thesis by (rule rotation_neg_mid)
  qed
qed

theorem rotation_consistency_witness:
  "fl 100 = 100 \<and> \<bar>100::real\<bar> \<le> 2 ^ 52
   \<and> rot (ascDegOf (JNum 100)) = 170
   \<and> wrap360 (fl (rot (ascDegOf (JNum 100)) + 100)) = 270
   \<and> fl 1000 = 1000 \<and> \<bar>1000::real\<bar> \<le> 2 ^ 52
   \<and> rot (ascDegOf (JNum 1000)) = 350
   \<and> wrap360 (fl (rot (ascDegOf (JNum 1000)) + 1000)) = 270"
  using rotation_consistency [of 100] rotation_consistency [of 1000] rot_of_int [of 1000]
  by (simp add: fl_small_ints wrap360_id)

text \<open>
  The claim as stated fails at the double \<open>10 ^ 17\<close>: its wrap is 280 and the rotation
  350, the doubles around \<open>10 ^ 17\<close> are 16 apart, the sum rounds to
  \<open>10 ^ 17 + 352\<close> and wraps to 272.
\<close>

theorem rotation_consistency_counterexample:
  "fl (10 ^ 17) = 10 ^ 17
   \<and> rot (ascDegOf (JNum (10 ^ 17))) = 350
   \<and> fl (350 + 10 ^ 17) = 10 ^ 17 + 352
   \<and> wrap360 (fl (rot (ascDegOf (JNum (10 ^ 17))) + 10 ^ 17)) = 272"
proof -
  have r: "rot (ascDegOf (JNum (10 ^ 17))) = 350"
    using rot_of_int [of "10 ^ 17"] by simp
  have "wrap360 (10 ^ 17 + 352) = 272"
    using wrap360_of_int [of "10 ^ 17 + 352"] by simp
  then have "wrap360 (fl (rot (ascDegOf (JNum (10 ^ 17))) + 10 ^ 17)) = 272"
    by (simp only: r fl_1e17_350)
  with r show ?thesis by (simp only: fl_1e17 fl_1e17_350)
qed

text \<open>
  C5. The placed bodies are the names of \<open>BODY_ORDER\<close>, in that order, whose entry
  exists, is not marked unavailable and has a numeric longitude. The \<open>k\<close>-th of them,
  counted from 0 over the placed bodies only, is anchored at the radius
  \<open>245 - (k mod 3) * 12\<close> and the angle \<open>wrap360 (lon + rot)\<close>.
\<close>

theorem planet_ring_cycle:
  "map pp_name (planetPoints bodies r) = filter (\<lambda>n. placedLon bodies n \<noteq> None) BODY_ORDER
   \<and> (\<forall>k < length (planetPoints bodies r).
         placedLon bodies (pp_name (planetPoints bodies r ! k))
           = Some (pp_lon (planetPoints bodies r ! k))
         \<and> \<lparr>xy_x = pp_x (planetPoints bodies r ! k), xy_y = pp_y (planetPoints bodies r ! k)\<rparr>
           = polar cx cy (245 - of_nat (k mod 3) * 12)
               (wrap360 (pp_lon (planetPoints bodies r ! k) + r)))"
  using planetPoints_spec [of bodies r] by (simp add: onRing_def R_PLANET_def)

theorem planet_ring_cycle_witness:
  "map pp_name (planetPoints bodiesSix 0) = [''Sun'', ''Mercury'', ''Mars'', ''Jupiter'']
   \<and> \<lparr>xy_x = pp_x (planetPoints bodiesSix 0 ! 0), xy_y = pp_y (planetPoints bodiesSix 0 ! 0)\<rparr>
       = polar cx cy 245 (wrap360 (pp_lon (planetPoints bodiesSix 0 ! 0) + 0))
   \<and> \<lparr>xy_x = pp_x (planetPoints bodiesSix 0 ! 1), xy_y = pp_y (planetPoints bodiesSix 0 ! 1)\<rparr>
       = polar cx cy (245 - 12) (wrap360 (pp_lon (planetPoints bodiesSix 0 ! 1) + 0))
   \<and> \<lparr>xy_x = pp_x (planetPoints bodiesSix 0 ! 2), xy_y = pp_y (planetPoints bodiesSix 0 ! 2)\<rparr>
       = polar cx cy (245 - 2 * 12) (wrap360 (pp_lon (planetPoints bodiesSix 0 ! 2) + 0))
   \<and> \<lparr>xy_x = pp_x (planetPoints bodiesSix 0 ! 3), xy_y = pp_y (planetPoints bodiesSix 0 ! 3)\<rparr>
       = polar cx cy 245 (wrap360 (pp_lon (planetPoints bodiesSix 0 ! 3) + 0))"
proof -
  have names: "map pp_name (planetPoints bodiesSix 0) = [''Sun'', ''Mercury'', ''Mars'', ''Jupiter'']"
    by (simp add: planetPoints_def BODY_ORDER_def bodiesSix_def optGet_def Let_def)
  then have "length (map pp_name (planetPoints bodiesSix 0)) = 4" by simp
  then have len: "length (planetPoints bodiesSix 0) = 4" by simp
  note ring = planet_ring_cycle [of bodiesSix 0, THEN conjunct2, rule_format, THEN conjunct2]
  have "0 < length (planetPoints bodiesSix 0)" "1 < length (planetPoints bodiesSix 0)"
    "2 < length (planetPoints bodiesSix 0)" "3 < length (planetPoints bodiesSix 0)"
    using len by simp_all
  from this [THEN ring] names show ?thesis by simp
qed

text \<open>
  C6. A row whose orb is above 6.0, or is not a number, yields no chord and leaves no
  trace: the result is that of the rows without it. A row whose orb is at most 6.0 (6.0
  itself too) and whose fields are present is emitted, after rows that emitted fewer than
  30 chords, when its key is new and both its names are placed.
\<close>

theorem orb_filter:
  "aspectLines P r rows = aspectLines P r (filter (\<lambda>a. orbOf a \<le> 6) rows)
   \<and> (orbOf a \<le> 6 \<and> \<not> falsyField (ar_p1 a) \<and> \<not> falsyField (ar_p2 a)
        \<and> \<not> falsyField (ar_aspect a)
        \<and> keyRaw a \<notin> keyRaw ` set (filter rowPasses xs)
        \<and> chordOf P r a = Some c \<and> length (aspectLines P r xs) < 30
      \<longrightarrow> aspectLines P r (xs @ [a]) = aspectLines P r xs @ [c])"
proof -
  have "filter rowPasses (filter (\<lambda>a. orbOf a \<le> maxOrb) rows) = filter rowPasses rows"
    by (auto simp: rowPasses_def intro: filter_cong)
  then have "aspectLines P r rows = aspectLines P r (filter (\<lambda>a. orbOf a \<le> 6) rows)"
    by (simp add: aspectLines_pipeline maxOrb_def)
  moreover have "aspectLines P r (xs @ [a]) = aspectLines P r xs @ [c]"
    if "orbOf a \<le> 6" "\<not> falsyField (ar_p1 a)" "\<not> falsyField (ar_p2 a)"
       "\<not> falsyField (ar_aspect a)" "keyRaw a \<notin> keyRaw ` set (filter rowPasses xs)"
       "chordOf P r a = Some c" "length (aspectLines P r xs) < 30"
    using that by (intro aspectLines_snoc) (simp_all add: rowPasses_def maxOrb_def maxLines_def)
  ultimately show ?thesis by blast
qed

theorem orb_filter_witness:
  "aspectLines pointsSunMoon 0 [mkRow ''Sun'' ''Moon'' ''square'' 6.1] = []
   \<and> aspectLines pointsSunMoon 0 [mkRow ''Sun'' ''Moon'' ''square'' 6] =
       [\<lparr>ch_key = ''Moon|Sun|square'', ch_x1 = 425, ch_y1 = 310, ch_x2 = 195, ch_y2 = 310,
         ch_stroke = ''#9f7cff'', ch_width = 2.8, ch_opacity = 0.87\<rparr>]"
proof -
  have empty: "aspectLines pointsSunMoon 0 [] = []"
    by (simp add: aspectLines_def)
  have "aspectLines pointsSunMoon 0 [mkRow ''Sun'' ''Moon'' ''square'' 6.1]
      = aspectLines pointsSunMoon 0
          (filter (\<lambda>a. orbOf a \<le> 6) [mkRow ''Sun'' ''Moon'' ''square'' 6.1])"
    using orb_filter [of pointsSunMoon 0 "[mkRow ''Sun'' ''Moon'' ''square'' 6.1]"] by blast
  then have dropped: "aspectLines pointsSunMoon 0 [mkRow ''Sun'' ''Moon'' ''square'' 6.1] = []"
    by (simp add: mkRow_def empty)
  have "aspectLines pointsSunMoon 0 ([] @ [mkRow ''Sun'' ''Moon'' ''square'' 6])
      = aspectLines pointsSunMoon 0 [] @
        [\<lparr>ch_key = ''Moon|Sun|square'', ch_x1 = 425, ch_y1 = 310, ch_x2 = 195, ch_y2 = 310,
          ch_stroke = ''#9f7cff'', ch_width = 2.8, ch_opacity = 0.87\<rparr>]"
    by (rule orb_filter [THEN conjunct2, rule_format])
       (simp add: chord_SunMoon empty, simp add: mkRow_def)
  then show ?thesis using dropped by (simp add: empty)
qed

text \<open>
  C7, as the code has it. No two chords of the result have the same key. Two rows of the
  concatenated list that name the same unordered pair of bodies and the same aspect type
  have the same key. When the earlier of them has its fields and an orb of at most 6.0,
  the later one yields nothing: the result is that of the list without it.
\<close>

theorem later_duplicate:
  "distinct (map ch_key (aspectLines P r rows))
   \<and> (\<not> falsyField (ar_p1 a) \<and> \<not> falsyField (ar_p2 a) \<and> \<not> falsyField (ar_aspect a)
        \<and> orbOf a \<le> 6
        \<and> ((ar_p1 b = ar_p1 a \<and> ar_p2 b = ar_p2 a) \<or> (ar_p1 b = ar_p2 a \<and> ar_p2 b = ar_p1 a))
        \<and> ar_aspect b = ar_aspect a
      \<longrightarrow> keyRaw b = keyRaw a
        \<and> aspectLines P r (xs @ a # ys @ b # zs) = aspectLines P r (xs @ a # ys @ zs))"
proof (rule conjI)
  show "distinct (map ch_key (aspectLines P r rows))"
    by (rule aspectLines_keys_distinct)
next
  show "\<not> falsyField (ar_p1 a) \<and> \<not> falsyField (ar_p2 a) \<and> \<not> falsyField (ar_aspect a)
        \<and> orbOf a \<le> 6
        \<and> ((ar_p1 b = ar_p1 a \<and> ar_p2 b = ar_p2 a) \<or> (ar_p1 b = ar_p2 a \<and> ar_p2 b = ar_p1 a))
        \<and> ar_aspect b = ar_aspect a
      \<longrightarrow> keyRaw b = keyRaw a
        \<and> aspectLines P r (xs @ a # ys @ b # zs) = aspectLines P r (xs @ a # ys @ zs)"
  proof (intro impI, elim conjE)
    assume a: "\<not> falsyField (ar_p1 a)" "\<not> falsyField (ar_p2 a)"
      "\<not> falsyField (ar_aspect a)" "orbOf a \<le> 6"
      and rel: "(ar_p1 b = ar_p1 a \<and> ar_p2 b = ar_p2 a)
                \<or> (ar_p1 b = ar_p2 a \<and> ar_p2 b = ar_p1 a)"
        "ar_aspect b = ar_aspect a"
    from rel have key: "keyRaw b = keyRaw a"
      by (auto simp: keyRaw_sym) (simp add: keyRaw_def)
    from a have pass: "rowPasses a"
      by (simp add: rowPasses_def maxOrb_def)
    let ?S = "keyRaw ` set (filter rowPasses (xs @ a # ys))"
    have "keyRaw a \<in> ?S"
      using pass by auto
    then have "firstByKey ?S (filter rowPasses (b # zs)) = firstByKey ?S (filter rowPasses zs)"
      using key by simp
    then have "firstByKey {} (filter rowPasses ((xs @ a # ys) @ b # zs))
             = firstByKey {} (filter rowPasses ((xs @ a # ys) @ zs))"
      by (simp only: filter_append firstByKey_append Un_empty_left)
    then have "aspectLines P r (xs @ a # ys @ b # zs) = aspectLines P r (xs @ a # ys @ zs)"
      by (simp add: aspectLines_pipeline)
    with key show "keyRaw b = keyRaw a
       \<and> aspectLines P r (xs @ a # ys @ b # zs) = aspectLines P r (xs @ a # ys @ zs)"
      by simp
  qed
qed

theorem later_duplicate_witness:
  "aspectLines pointsSunMoon 0
     ([mkRow ''Sun'' ''Moon'' ''trine'' 2] @ [mkRow ''Moon'' ''Sun'' ''trine'' 3]) =
     [\<lparr>ch_key = ''Moon|Sun|trine'', ch_x1 = 425, ch_y1 = 310, ch_x2 = 195, ch_y2 = 310,
       ch_stroke = ''#ff86b8'', ch_width = 2.8, ch_opacity = 0.87\<rparr>]"
proof -
  have "aspectLines pointsSunMoon 0
          ([] @ mkRow ''Sun'' ''Moon'' ''trine'' 2 # [] @ mkRow ''Moon'' ''Sun'' ''trine'' 3 # [])
      = aspectLines pointsSunMoon 0 ([] @ mkRow ''Sun'' ''Moon'' ''trine'' 2 # [] @ [])"
    by (rule later_duplicate [THEN conjunct2, rule_format, THEN conjunct2])
       (simp add: mkRow_def)
  moreover have "aspectLines pointsSunMoon 0 [mkRow ''Sun'' ''Moon'' ''trine'' 2] =
     [\<lparr>ch_key = ''Moon|Sun|trine'', ch_x1 = 425, ch_y1 = 310, ch_x2 = 195, ch_y2 = 310,
       ch_stroke = ''#ff86b8'', ch_width = 2.8, ch_opacity = 0.87\<rparr>]"
    by (rule aspectLines_single) (simp_all add: chord_SunMoon_trine, simp add: rowPasses_def mkRow_def maxOrb_def)
  ultimately show ?thesis by simp
qed

text \<open>
  The claim as stated fails when the first occurrence has an orb above 6.0: the row
  Sun, Moon with orb 7 yields no chord and the later row Moon, Sun with orb 3 yields one,
  drawn from the Moon to the Sun.
\<close>

theorem first_occurrence_counterexample:
  "aspectLines pointsSunMoon 0
     ([mkRow ''Sun'' ''Moon'' ''trine'' 7] @ [mkRow ''Moon'' ''Sun'' ''trine'' 3]) =
     [\<lparr>ch_key = ''Moon|Sun|trine'', ch_x1 = 195, ch_y1 = 310, ch_x2 = 425, ch_y2 = 310,
       ch_stroke = ''#ff86b8'', ch_width = 2.8, ch_opacity = 0.87\<rparr>]
   \<and> aspectLines pointsSunMoon 0 [mkRow ''Sun'' ''Moon'' ''trine'' 7] = []
   \<and> keyRaw (mkRow ''Moon'' ''Sun'' ''trine'' 3) = keyRaw (mkRow ''Sun'' ''Moon'' ''trine'' 7)"
proof -
  have drop: "\<not> rowPasses (mkRow ''Sun'' ''Moon'' ''trine'' 7)"
    by (simp add: rowPasses_def mkRow_def maxOrb_def)
  have "aspectLines pointsSunMoon 0 [mkRow ''Moon'' ''Sun'' ''trine'' 3] =
     [\<lparr>ch_key = ''Moon|Sun|trine'', ch_x1 = 195, ch_y1 = 310, ch_x2 = 425, ch_y2 = 310,
       ch_stroke = ''#ff86b8'', ch_width = 2.8, ch_opacity = 0.87\<rparr>]"
    by (rule aspectLines_single) (simp_all add: chord_MoonSun_trine, simp add: rowPasses_def mkRow_def maxOrb_def)
  moreover have "aspectLines pointsSunMoon 0 [] = []" by (simp add: aspectLines_def)
  ultimately show ?thesis
    using drop by (simp add: aspectLines_dropped_first) (simp add: keyRaw_def mkRow_def)
qed




text \<open>
  C9. The scene of a render is a function of the chart alone: whatever charts the
  component rendered before, and so whatever its memo cells hold, the render of a chart
  gives the scene that the body computes from the chart without any cell. Two renders of
  one chart, each after renders of its own, give the same scene (or fail alike), and so
  does a render repeated at once.
\<close>

theorem render_deterministic:
  "snd (render sn (after sn history) chart) = ChartWheel sn chart
   \<and> snd (render sn (after sn history) chart) = snd (render sn (after sn history') chart)
   \<and> snd (render sn (fst (render sn (after sn history) chart)) chart)
       = snd (render sn (after sn history) chart)"
  using render_consistent [OF after_consistent, of sn history chart]
    render_consistent [OF after_consistent, of sn history' chart]
    render_consistent [of sn "fst (render sn (after sn history) chart)" chart]
  by simp

text \<open>
  C10. A name outside \<open>BODY_ORDER\<close> is never placed, whatever its entry holds: no
  point and no entry of \<open>pointByName\<close> carries it, a row that names it has no chord,
  and every chord that is emitted is the chord of a row that does not name it.
\<close>

theorem unlisted_body:
  "name \<notin> set BODY_ORDER \<longrightarrow>
     (\<forall>p \<in> set (planetPoints bodies r). pp_name p \<noteq> name)
     \<and> pointByName (planetPoints bodies r) name = None
     \<and> (ar_p1 a = Some name \<or> ar_p2 a = Some name
          \<longrightarrow> chordOf (pointByName (planetPoints bodies r)) r a = None)
     \<and> (\<forall>c \<in> set (aspectLines (pointByName (planetPoints bodies r)) r rows).
          \<exists>b \<in> set rows. chordOf (pointByName (planetPoints bodies r)) r b = Some c
            \<and> ar_p1 b \<noteq> Some name \<and> ar_p2 b \<noteq> Some name)"
proof
  assume out: "name \<notin> set BODY_ORDER"
  let ?P = "pointByName (planetPoints bodies r)"
  from out planetPoints_names [of bodies r]
  have 1: "name \<notin> pp_name ` set (planetPoints bodies r)" by blast
  then have 2: "?P name = None" by (rule pointByName_None)
  have 3: "chordOf ?P r a' = None" if "ar_p1 a' = Some name \<or> ar_p2 a' = Some name" for a'
    using that 2 by (auto simp: chordOf_def split: option.splits)
  have 4: "\<exists>b \<in> set rows. chordOf ?P r b = Some c \<and> ar_p1 b \<noteq> Some name \<and> ar_p2 b \<noteq> Some name"
    if "c \<in> set (aspectLines ?P r rows)" for c
  proof -
    from chord_origin [OF that] obtain b where b: "b \<in> set rows" "chordOf ?P r b = Some c"
      by blast
    with 3 [of b] have "ar_p1 b \<noteq> Some name \<and> ar_p2 b \<noteq> Some name" by auto
    with b show ?thesis by blast
  qed
  from 1 2 3 4 show "(\<forall>p \<in> set (planetPoints bodies r). pp_name p \<noteq> name)
     \<and> ?P name = None
     \<and> (ar_p1 a = Some name \<or> ar_p2 a = Some name \<longrightarrow> chordOf ?P r a = None)
     \<and> (\<forall>c \<in> set (aspectLines ?P r rows).
          \<exists>b \<in> set rows. chordOf ?P r b = Some c
            \<and> ar_p1 b \<noteq> Some name \<and> ar_p2 b \<noteq> Some name)"
    by blast
qed

theorem unlisted_body_witness:
  "''Ceres'' \<notin> set BODY_ORDER
   \<and> placedLon bodiesCeres ''Ceres'' = Some 90
   \<and> map pp_name (planetPoints bodiesCeres 0) = [''Sun'']
   \<and> pointByName (planetPoints bodiesCeres 0) ''Ceres'' = None
   \<and> aspectLines (pointByName (planetPoints bodiesCeres 0)) 0
       [mkRow ''Ceres'' ''Sun'' ''trine'' 1] = []"
proof -
  have out: "''Ceres'' \<notin> set BODY_ORDER" by (simp add: BODY_ORDER_def)
  note u = unlisted_body [of "''Ceres''" bodiesCeres 0 "mkRow ''Ceres'' ''Sun'' ''trine'' 1"
      "[mkRow ''Ceres'' ''Sun'' ''trine'' 1]", rule_format, OF out]
  have none: "pointByName (planetPoints bodiesCeres 0) ''Ceres'' = None"
    using u by blast
  have "chordOf (pointByName (planetPoints bodiesCeres 0)) 0 (mkRow ''Ceres'' ''Sun'' ''trine'' 1) = None"
    using u by (simp add: mkRow_def)
  with u have "set (aspectLines (pointByName (planetPoints bodiesCeres 0)) 0
       [mkRow ''Ceres'' ''Sun'' ''trine'' 1]) = {}"
    by fastforce
  moreover have "placedLon bodiesCeres ''Ceres'' = Some 90"
    by (simp add: placedLon_def bodiesCeres_def optGet_def)
  moreover have "map pp_name (planetPoints bodiesCeres 0) = [''Sun'']"
    by (simp add: planetPoints_def BODY_ORDER_def bodiesCeres_def optGet_def Let_def)
  ultimately show ?thesis using out none by simp
qed

end
